theory Spec2Isabelle
  imports Complex_Main "HOL-Library.Log_Nat"
begin

section \<open>Python values that cross the API boundary\<close>

text \<open>
  The client in \<^verbatim>\<open>custom_components/condair/api.py\<close> receives whatever
  \<^verbatim>\<open>resp.json()\<close> decodes and hands it to the builtins \<^verbatim>\<open>float\<close>,
  \<^verbatim>\<open>int\<close>, \<^verbatim>\<open>str\<close> and to truth tests. This section fixes those values and
  builtins. Integers are unbounded, as in Python. Strings are lists of 8-bit characters: the
  builtins below agree with Python on ASCII text; code points above 127 (for instance the
  no-break space and non-Latin digits, which Python accepts) are outside the model. The
  interpreter's optional limit on the number of digits in \<^verbatim>\<open>int\<close>/\<^verbatim>\<open>str\<close>
  conversions is a start-up setting, not a property of this program, and is not modelled.
\<close>

subsection \<open>Floats\<close>

text \<open>
  A Python float is an IEEE 754 binary64: a finite value, an infinity or a NaN. \<open>Fin x\<close>
  carries the real number the float denotes; the sign of zero is not kept (it is invisible to
  every comparison the client makes).
\<close>

datatype pyfloat = Fin real | PInf | NInf | NaN

definition round_half_even :: "real \<Rightarrow> int" where
  "round_half_even x =
     (let f = \<lfloor>x\<rfloor>; d = x - of_int f
      in if d < 1 / 2 then f
         else if 1 / 2 < d then f + 1
         else if even f then f else f + 1)"

text \<open>\<open>ilog2 a\<close> is the binary exponent of \<open>a > 0\<close>: \<open>2 powi e \<le> a < 2 powi (e + 1)\<close>.\<close>

definition ilog2 :: "real \<Rightarrow> int" where
  "ilog2 a = (if 1 \<le> a then bitlen \<lfloor>a\<rfloor> - 1 else - bitlen (\<lceil>1 / a\<rceil> - 1))"

text \<open>
  Rounding of a real to the nearest binary64 (ties to even): 53 significant bits, exponents
  down to the subnormal range, and an infinity once the rounded magnitude reaches \<open>2 ^ 1024\<close>.
\<close>

definition binary64 :: "real \<Rightarrow> pyfloat" where
  "binary64 x =
     (if x = 0 then Fin 0
      else let a = \<bar>x\<bar>;
               e = max (ilog2 a) (- 1022);
               ulp = 2 powi (e - 52);
               r = of_int (round_half_even (a / ulp)) * ulp
           in if 2 ^ 1024 \<le> r then (if 0 < x then PInf else NInf)
              else Fin (if 0 < x then r else - r))"

text \<open>Float addition, subtraction and the comparisons \<^verbatim>\<open>>=\<close> and \<^verbatim>\<open>==\<close>.\<close>

fun float_add :: "pyfloat \<Rightarrow> pyfloat \<Rightarrow> pyfloat" where
  "float_add (Fin x) (Fin y) = binary64 (x + y)"
| "float_add NaN _ = NaN"
| "float_add _ NaN = NaN"
| "float_add PInf NInf = NaN"
| "float_add NInf PInf = NaN"
| "float_add PInf _ = PInf"
| "float_add NInf _ = NInf"
| "float_add _ PInf = PInf"
| "float_add _ NInf = NInf"

fun float_neg :: "pyfloat \<Rightarrow> pyfloat" where
  "float_neg (Fin x) = Fin (- x)"
| "float_neg PInf = NInf"
| "float_neg NInf = PInf"
| "float_neg NaN = NaN"

definition float_sub :: "pyfloat \<Rightarrow> pyfloat \<Rightarrow> pyfloat" where
  "float_sub a b = float_add a (float_neg b)"

fun float_ge :: "pyfloat \<Rightarrow> pyfloat \<Rightarrow> bool" where
  "float_ge NaN _ = False"
| "float_ge _ NaN = False"
| "float_ge PInf _ = True"
| "float_ge _ NInf = True"
| "float_ge NInf _ = False"
| "float_ge _ PInf = False"
| "float_ge (Fin x) (Fin y) = (y \<le> x)"

fun float_eq :: "pyfloat \<Rightarrow> pyfloat \<Rightarrow> bool" where
  "float_eq NaN _ = False"
| "float_eq _ NaN = False"
| "float_eq a b = (a = b)"

text \<open>
  The comparison \<^verbatim>\<open><\<close>. The client itself only tests \<^verbatim>\<open>>=\<close>; the properties below speak of
  \<^verbatim>\<open>now < expires_at\<close>.
\<close>

fun float_lt :: "pyfloat \<Rightarrow> pyfloat \<Rightarrow> bool" where
  "float_lt NaN _ = False"
| "float_lt _ NaN = False"
| "float_lt PInf _ = False"
| "float_lt _ NInf = False"
| "float_lt NInf _ = True"
| "float_lt _ PInf = True"
| "float_lt (Fin x) (Fin y) = (x < y)"

subsection \<open>Exceptions\<close>

text \<open>
  The exceptions that can come out of the client. \<^verbatim>\<open>aiohttp.ClientResponseError\<close> is a
  subclass of \<^verbatim>\<open>aiohttp.ClientError\<close>; \<open>ClientError\<close> below stands for every other
  \<^verbatim>\<open>ClientError\<close> (connection and transport failures).
\<close>

datatype py_error =
    ClientResponseError nat
  | ClientError
  | TimeoutError
  | JSONDecodeError
  | TypeError
  | ValueError
  | OverflowError
  | AttributeError
  | KeyError

fun is_ClientResponseError :: "py_error \<Rightarrow> bool" where
  "is_ClientResponseError (ClientResponseError _) = True"
| "is_ClientResponseError _ = False"

fun is_ClientError :: "py_error \<Rightarrow> bool" where
  "is_ClientError (ClientResponseError _) = True"
| "is_ClientError ClientError = True"
| "is_ClientError _ = False"

subsection \<open>Decoded JSON\<close>

text \<open>
  What \<^verbatim>\<open>json.loads\<close> produces: \<^verbatim>\<open>None\<close>, \<^verbatim>\<open>bool\<close>, \<^verbatim>\<open>int\<close>,
  \<^verbatim>\<open>float\<close>, \<^verbatim>\<open>str\<close>, \<^verbatim>\<open>list\<close> and \<^verbatim>\<open>dict\<close>. A dict is an
  association list read with \<open>map_of\<close> (the first binding of a key is the dict's value).
\<close>

datatype json =
    JNull
  | JBool bool
  | JInt int
  | JFloat pyfloat
  | JStr string
  | JList "json list"
  | JDict "(string \<times> json) list"

fun is_dict :: "json \<Rightarrow> bool" where
  "is_dict (JDict _) = True"
| "is_dict _ = False"

fun is_list :: "json \<Rightarrow> bool" where
  "is_list (JList _) = True"
| "is_list _ = False"

text \<open>\<^verbatim>\<open>key in d\<close>, \<^verbatim>\<open>d.get(key, default)\<close> and \<^verbatim>\<open>d[key]\<close> on a dict.\<close>

definition has_key :: "(string \<times> json) list \<Rightarrow> string \<Rightarrow> bool" where
  "has_key d k = (case map_of d k of None \<Rightarrow> False | Some _ \<Rightarrow> True)"

definition dict_get :: "(string \<times> json) list \<Rightarrow> string \<Rightarrow> json \<Rightarrow> json" where
  "dict_get d k dflt = (case map_of d k of None \<Rightarrow> dflt | Some v \<Rightarrow> v)"


text \<open>Python's truth test, as used by \<^verbatim>\<open>if not self._access_token\<close>.\<close>

fun truthy :: "json \<Rightarrow> bool" where
  "truthy JNull = False"
| "truthy (JBool b) = b"
| "truthy (JInt n) = (n \<noteq> 0)"
| "truthy (JFloat f) = (f \<noteq> Fin 0)"
| "truthy (JStr s) = (s \<noteq> [])"
| "truthy (JList xs) = (xs \<noteq> [])"
| "truthy (JDict d) = (d \<noteq> [])"

subsection \<open>Numeric text\<close>

definition is_space :: "char \<Rightarrow> bool" where
  "is_space c = (c \<in> set [CHR '' '', CHR 0x09, CHR 0x0A, CHR 0x0B, CHR 0x0C, CHR 0x0D])"

definition is_digit :: "char \<Rightarrow> bool" where
  "is_digit c = (c \<in> set ''0123456789'')"

definition digit_val :: "char \<Rightarrow> nat" where
  "digit_val c = of_char c - 48"

definition strip :: "string \<Rightarrow> string" where
  "strip s = rev (dropWhile is_space (rev (dropWhile is_space s)))"

definition nat_of_digits :: "string \<Rightarrow> nat" where
  "nat_of_digits ds = foldl (\<lambda>n c. 10 * n + digit_val c) 0 ds"

text \<open>
  An underscore may only stand between two digits; \<open>underscores_ok prev s\<close> walks the text with
  the previous character in hand (\<open>None\<close> at the start).
\<close>

fun underscores_ok :: "char option \<Rightarrow> string \<Rightarrow> bool" where
  "underscores_ok prev [] = (prev \<noteq> Some CHR ''_'')"
| "underscores_ok prev (c # cs) =
     (if c = CHR ''_''
      then (case prev of None \<Rightarrow> False | Some p \<Rightarrow> is_digit p \<and> underscores_ok (Some c) cs)
      else (if prev = Some CHR ''_'' \<and> \<not> is_digit c then False
            else underscores_ok (Some c) cs))"

definition drop_underscores :: "string \<Rightarrow> string" where
  "drop_underscores s = filter (\<lambda>c. c \<noteq> CHR ''_'') s"

text \<open>An optional sign: the sign (\<open>True\<close> for minus) and the rest of the text.\<close>

fun take_sign :: "string \<Rightarrow> bool \<times> string" where
  "take_sign (c # cs) =
     (if c = CHR ''-'' then (True, cs) else if c = CHR ''+'' then (False, cs) else (False, c # cs))"
| "take_sign [] = (False, [])"

definition lower :: "string \<Rightarrow> string" where
  "lower s = map (\<lambda>c. if of_char c \<in> {65 .. 90 :: nat} then char_of (of_char c + 32 :: nat) else c) s"

text \<open>\<^verbatim>\<open>int(s)\<close> for a string, base ten.\<close>

definition int_of_string :: "string \<Rightarrow> py_error + int" where
  "int_of_string s =
     (let t = strip s in
      if \<not> underscores_ok None t then Inl ValueError
      else let (neg, ds) = take_sign (drop_underscores t) in
        if ds = [] \<or> \<not> list_all is_digit ds then Inl ValueError
        else Inr (if neg then - int (nat_of_digits ds) else int (nat_of_digits ds)))"

text \<open>
  \<^verbatim>\<open>float(s)\<close> for a string: \<^verbatim>\<open>inf\<close>, \<^verbatim>\<open>infinity\<close> and \<^verbatim>\<open>nan\<close> in any
  case, or a decimal with an integer part, a fraction or both, and an optional exponent. The
  decimal is rounded correctly to binary64.
\<close>

definition decimal_of_string :: "string \<Rightarrow> real option" where
  "decimal_of_string s =
     (let ip = takeWhile is_digit s; r1 = dropWhile is_digit s;
          (fp, r2) = (case r1 of c # cs \<Rightarrow>
                        if c = CHR ''.'' then (takeWhile is_digit cs, dropWhile is_digit cs)
                        else ([], r1)
                      | [] \<Rightarrow> ([], r1));
          m = of_nat (nat_of_digits (ip @ fp)) :: real
      in if ip = [] \<and> fp = [] then None
         else (case r2 of
                 [] \<Rightarrow> Some (m * 10 powi (- int (length fp)))
               | c # cs \<Rightarrow>
                   if c = CHR ''e'' \<or> c = CHR ''E''
                   then (let (neg, xs) = take_sign cs in
                         if xs = [] \<or> \<not> list_all is_digit xs then None
                         else Some (m * 10 powi ((if neg then - int (nat_of_digits xs)
                                                  else int (nat_of_digits xs))
                                                 - int (length fp))))
                   else None))"

definition float_of_string :: "string \<Rightarrow> py_error + pyfloat" where
  "float_of_string s =
     (let t = strip s in
      if \<not> underscores_ok None t then Inl ValueError
      else let (neg, u) = take_sign (drop_underscores t); l = lower u in
        if l = ''inf'' \<or> l = ''infinity'' then Inr (if neg then NInf else PInf)
        else if l = ''nan'' then Inr NaN
        else (case decimal_of_string u of
                None \<Rightarrow> Inl ValueError
              | Some x \<Rightarrow> Inr (binary64 (if neg then - x else x))))"

text \<open>\<^verbatim>\<open>float(n)\<close> for an int raises when the rounded value leaves the binary64 range.\<close>

definition float_of_int :: "int \<Rightarrow> py_error + pyfloat" where
  "float_of_int n = (case binary64 (of_int n) of Fin x \<Rightarrow> Inr (Fin x) | _ \<Rightarrow> Inl OverflowError)"

text \<open>\<^verbatim>\<open>float(v)\<close> and \<^verbatim>\<open>int(v)\<close> on a decoded JSON value.\<close>

fun py_float :: "json \<Rightarrow> py_error + pyfloat" where
  "py_float JNull = Inl TypeError"
| "py_float (JBool b) = Inr (Fin (if b then 1 else 0))"
| "py_float (JInt n) = float_of_int n"
| "py_float (JFloat f) = Inr f"
| "py_float (JStr s) = float_of_string s"
| "py_float (JList _) = Inl TypeError"
| "py_float (JDict _) = Inl TypeError"

fun py_int :: "json \<Rightarrow> py_error + int" where
  "py_int JNull = Inl TypeError"
| "py_int (JBool b) = Inr (if b then 1 else 0)"
| "py_int (JInt n) = Inr n"
| "py_int (JFloat (Fin x)) = Inr (if 0 \<le> x then \<lfloor>x\<rfloor> else \<lceil>x\<rceil>)"
| "py_int (JFloat NaN) = Inl ValueError"
| "py_int (JFloat _) = Inl OverflowError"
| "py_int (JStr s) = int_of_string s"
| "py_int (JList _) = Inl TypeError"
| "py_int (JDict _) = Inl TypeError"





section \<open>The client \<^verbatim>\<open>CondairApi\<close> and its environment\<close>

subsection \<open>State\<close>

text \<open>
  The client talks to the network, reads the clock and writes to the log. These are made
  explicit: \<open>replies\<close> is the script of how the \<open>n\<close>-th HTTP exchange will end, \<open>sent\<close>
  the requests issued so far, \<open>clock\<close> the successive readings of \<^verbatim>\<open>time.time()\<close>, and
  \<open>logged\<close> the log records (level and format string). A property proved for every
  \<open>replies\<close> and every \<open>clock\<close> holds whatever the server and the time do.
\<close>

datatype level = DEBUG | INFO | WARNING | ERROR

datatype http_method = GET | POST

text \<open>
  A request as given to \<^verbatim>\<open>session.get\<close>/\<^verbatim>\<open>session.post\<close>. \<open>bearer\<close> is the token
  formatted into the \<^verbatim>\<open>Authorization\<close> header, \<open>None\<close> when the header dict is empty.
\<close>

record request =
  meth :: http_method
  url :: string
  body :: "json option"
  bearer :: "json option"

text \<open>
  How one exchange ends, in the order the code looks at it: \<^verbatim>\<open>session.get\<close>/\<^verbatim>\<open>post\<close>
  raises a \<^verbatim>\<open>ClientError\<close> or times out; \<^verbatim>\<open>raise_for_status\<close> raises a
  \<^verbatim>\<open>ClientResponseError\<close>; the content type is JSON and \<^verbatim>\<open>resp.json()\<close> decodes the
  body or fails to; or the content type is something else.
\<close>

datatype http_outcome =
    Transport_Failure
  | Timed_Out
  | Bad_Status nat
  | Json_Body json
  | Malformed_Json
  | Other_Body string

datatype session = No_Session | Open_Session | Closed_Session

text \<open>The environment: the network, the clock and the log.\<close>

record world =
  replies :: "nat \<Rightarrow> http_outcome"
  sent :: "request list"
  clock :: "nat \<Rightarrow> pyfloat"
  ticks :: nat
  logged :: "(level \<times> string) list"

text \<open>
  The fields of \<^verbatim>\<open>CondairApi\<close> (lines 23--33), in the environment the client runs in. The
  tokens are whatever the server sent (\<^verbatim>\<open>None\<close> is \<open>JNull\<close>); username and password are
  the strings given to \<^verbatim>\<open>authenticate\<close>.
\<close>

record condair_api = world +
  session :: session
  base_url :: string
  access_token :: json
  refresh_token :: json
  token_expires_at :: pyfloat
  username :: "string option"
  password :: "string option"

type_synonym 'a outcome = "(py_error + 'a) \<times> condair_api"

definition logger :: "level \<Rightarrow> string \<Rightarrow> condair_api \<Rightarrow> condair_api" where
  "logger lvl msg s = s\<lparr>logged := logged s @ [(lvl, msg)]\<rparr>"

definition time_time :: "condair_api \<Rightarrow> pyfloat \<times> condair_api" where
  "time_time s = (clock s (ticks s), s\<lparr>ticks := Suc (ticks s)\<rparr>)"

definition transmit :: "request \<Rightarrow> condair_api \<Rightarrow> http_outcome \<times> condair_api" where
  "transmit rq s = (replies s (length (sent s)), s\<lparr>sent := sent s @ [rq]\<rparr>)"

fun items :: "json \<Rightarrow> (string \<times> json) list" where
  "items (JDict d) = d"
| "items _ = []"

fun elements :: "json \<Rightarrow> json list" where
  "elements (JList xs) = xs"
| "elements _ = []"

fun str_truthy :: "string option \<Rightarrow> bool" where
  "str_truthy None = False"
| "str_truthy (Some s) = (s \<noteq> [])"

subsection \<open>Session and requests (\<^verbatim>\<open>api.py\<close> lines 39--90)\<close>

definition ensure_session :: "condair_api \<Rightarrow> condair_api" where
  "ensure_session s =
     (if session s = No_Session \<or> session s = Closed_Session
      then s\<lparr>session := Open_Session\<rparr> else s)"

definition get_auth_header :: "condair_api \<Rightarrow> json option" where
  "get_auth_header s = (if truthy (access_token s) then Some (access_token s) else None)"

definition get_request :: "string \<Rightarrow> condair_api \<Rightarrow> json outcome" where
  "get_request endpoint s =
     (let s1 = ensure_session s;
          u = base_url s1 @ ''/'' @ endpoint;
          s2 = logger DEBUG ''GET %s'' s1;
          (out, s3) = transmit \<lparr>meth = GET, url = u, body = None, bearer = get_auth_header s2\<rparr> s2
      in case out of
           Transport_Failure \<Rightarrow> (Inl ClientError, s3)
         | Timed_Out \<Rightarrow> (Inl TimeoutError, s3)
         | Bad_Status code \<Rightarrow> (Inl (ClientResponseError code), s3)
         | Json_Body j \<Rightarrow> (Inr j, s3)
         | Malformed_Json \<Rightarrow> (Inl JSONDecodeError, s3)
         | Other_Body txt \<Rightarrow>
             (Inr (JDict []),
              logger DEBUG ''Non-JSON GET response, returning empty dict. Body: %s'' s3))"

definition post_request :: "string \<Rightarrow> json \<Rightarrow> condair_api \<Rightarrow> json outcome" where
  "post_request endpoint data s =
     (let s1 = ensure_session s;
          u = base_url s1 @ ''/'' @ endpoint;
          s2 = logger DEBUG (''POST %s'' @ CHR 0x0A # ''Sending JSON:'' @ CHR 0x0A # ''%s'') s1;
          (out, s3) = transmit \<lparr>meth = POST, url = u, body = Some data,
                                 bearer = get_auth_header s2\<rparr> s2
      in case out of
           Transport_Failure \<Rightarrow> (Inl ClientError, s3)
         | Timed_Out \<Rightarrow> (Inl TimeoutError, s3)
         | Bad_Status code \<Rightarrow> (Inl (ClientResponseError code), s3)
         | Json_Body j \<Rightarrow> (Inr j, s3)
         | Malformed_Json \<Rightarrow> (Inl JSONDecodeError, s3)
         | Other_Body txt \<Rightarrow>
             (Inr (JDict []),
              logger DEBUG ''Non-JSON POST response, returning empty dict. Body: %s'' s3))"

subsection \<open>Authentication (lines 95--191)\<close>

text \<open>
  Lines 125--131 and, word for word, 168--174: read \<^verbatim>\<open>expires_in\<close> (default the string
  \<^verbatim>\<open>"3600"\<close>), convert it with \<^verbatim>\<open>int\<close>, fall back to 3600 on \<^verbatim>\<open>ValueError\<close> only,
  and set \<^verbatim>\<open>_token_expires_at = time.time() + expires_in - 30\<close>. Adding an int to a float
  converts the int first.
\<close>

definition set_expiry :: "(string \<times> json) list \<Rightarrow> condair_api \<Rightarrow> int outcome" where
  "set_expiry resp s =
     (let expires_in_str = dict_get resp ''expires_in'' (JStr ''3600'') in
      case (if py_int expires_in_str = Inl ValueError then Inr 3600 else py_int expires_in_str) of
        Inl e \<Rightarrow> (Inl e, s)
      | Inr expires_in \<Rightarrow>
          (let (now, s1) = time_time s in
           case float_of_int expires_in of
             Inl e \<Rightarrow> (Inl e, s1)
           | Inr d \<Rightarrow>
               (Inr expires_in,
                s1\<lparr>token_expires_at := float_sub (float_add now d) (Fin 30)\<rparr>)))"

text \<open>The body of the \<^verbatim>\<open>try\<close> in \<^verbatim>\<open>authenticate\<close>, then the function with its handlers.\<close>

definition authenticate_try :: "string \<Rightarrow> string \<Rightarrow> condair_api \<Rightarrow> bool outcome" where
  "authenticate_try usr pwd s =
     (let payload = JDict [(''username'', JStr usr), (''password'', JStr pwd)] in
      case post_request ''userapi/users/signin'' payload s of
        (Inl e, s1) \<Rightarrow> (Inl e, s1)
      | (Inr resp, s1) \<Rightarrow>
          if is_dict resp \<and> has_key (items resp) ''error''
          then (Inr False, logger ERROR ''Login failed: %s - %s'' s1)
          else if \<not> is_dict resp \<or> \<not> has_key (items resp) ''access_token''
                  \<or> \<not> has_key (items resp) ''refresh_token''
          then (Inr False, logger ERROR ''Unexpected login response: %s'' s1)
          else (let s2 = s1\<lparr>access_token := dict_get (items resp) ''access_token'' JNull,
                              refresh_token := dict_get (items resp) ''refresh_token'' JNull,
                              username := Some usr,
                              password := Some pwd\<rparr>
                in case set_expiry (items resp) s2 of
                     (Inl e, s3) \<Rightarrow> (Inl e, s3)
                   | (Inr expires_in, s3) \<Rightarrow>
                       (Inr True, logger INFO ''Authenticated! Expires in %s seconds.'' s3)))"

definition authenticate :: "string \<Rightarrow> string \<Rightarrow> condair_api \<Rightarrow> bool outcome" where
  "authenticate usr pwd s =
     (case authenticate_try usr pwd s of
        (Inl e, s1) \<Rightarrow>
          if is_ClientResponseError e
          then (Inr False, logger ERROR ''HTTP error authenticating: %s'' s1)
          else if is_ClientError e
          then (Inr False, logger ERROR ''Network error authenticating: %s'' s1)
          else (Inl e, s1)
      | (Inr b, s1) \<Rightarrow> (Inr b, s1))"

definition refresh_try :: "condair_api \<Rightarrow> bool outcome" where
  "refresh_try s =
     (let payload = JDict [(''refresh_token'', refresh_token s)] in
      case post_request ''userapi/users/refresh'' payload s of
        (Inl e, s1) \<Rightarrow> (Inl e, s1)
      | (Inr resp, s1) \<Rightarrow>
          if is_dict resp \<and> has_key (items resp) ''error''
          then (let s2 = logger ERROR ''Refresh token error: %s'' s1 in
                if str_truthy (username s2) \<and> str_truthy (password s2)
                then authenticate (the (username s2)) (the (password s2))
                       (logger WARNING ''Trying to re-authenticate.'' s2)
                else (Inr False, logger ERROR ''No username/password to re-authenticate.'' s2))
          else if \<not> is_dict resp then (Inl AttributeError, s1)
          else (let s2 = s1\<lparr>access_token := dict_get (items resp) ''access_token'' JNull,
                              refresh_token := dict_get (items resp) ''refresh_token'' JNull\<rparr>
                in case set_expiry (items resp) s2 of
                     (Inl e, s3) \<Rightarrow> (Inl e, s3)
                   | (Inr expires_in, s3) \<Rightarrow>
                       (Inr True, logger INFO ''Token refreshed. Expires in %s seconds.'' s3)))"

definition refresh_access_token :: "condair_api \<Rightarrow> bool outcome" where
  "refresh_access_token s =
     (if \<not> truthy (refresh_token s)
      then (Inr False, logger ERROR ''No refresh token available.'' s)
      else case refresh_try s of
             (Inl e, s1) \<Rightarrow>
               if is_ClientError e
               then (Inr False, logger ERROR ''Network error refreshing token: %s'' s1)
               else (Inl e, s1)
           | (Inr b, s1) \<Rightarrow> (Inr b, s1))"

definition maybe_refresh_token :: "condair_api \<Rightarrow> bool outcome" where
  "maybe_refresh_token s =
     (if \<not> truthy (access_token s)
      then (Inr False, logger WARNING ''No access token; must authenticate first.'' s)
      else let (now, s1) = time_time s in
        if float_ge now (token_expires_at s1)
        then refresh_access_token (logger DEBUG ''Token expired or expiring soon, refreshing.'' s1)
        else (Inr True, s1))"


subsection \<open>Data fetching (lines 196--270)\<close>

text \<open>
  \<^verbatim>\<open>get_devices\<close> and \<^verbatim>\<open>get_latest_datapoints\<close>. (\<^verbatim>\<open>get_parent_instances\<close>, lines
  205--221, has no caller in the repository and no property below concerns it; it is left
  out.)
\<close>

definition get_devices :: "condair_api \<Rightarrow> json outcome" where
  "get_devices s =
     (case maybe_refresh_token s of
        (Inl e, s1) \<Rightarrow> (Inl e, s1)
      | (Inr _, s1) \<Rightarrow>
          (case get_request ''api/condair/sensor-instances?pageSize=999'' s1 of
             (Inl e, s2) \<Rightarrow> (Inl e, s2)
           | (Inr resp, s2) \<Rightarrow>
               if is_dict resp \<and> has_key (items resp) ''data''
               then (Inr (dict_get (items resp) ''data'' JNull), s2)
               else (Inr (JList []), logger WARNING ''Unexpected get_devices response: %s'' s2)))"

text \<open>
  The snapshot \<^verbatim>\<open>parsed\<close> is a dict from field names to a float or a bool.
\<close>

datatype reading = Number pyfloat | Flag bool

type_synonym snapshot = "string \<rightharpoonup> reading"

text \<open>
  Lines 245--251: \<^verbatim>\<open>numeric_val\<close> is \<^verbatim>\<open>float(val_str)\<close> when \<^verbatim>\<open>value\<close> is present and
  not \<^verbatim>\<open>None\<close>, and stays \<^verbatim>\<open>None\<close> when \<^verbatim>\<open>float\<close> raises \<^verbatim>\<open>ValueError\<close>. Any
  other exception of \<^verbatim>\<open>float\<close> leaves the function.
\<close>

definition numeric_val :: "(string \<times> json) list \<Rightarrow> py_error + pyfloat option" where
  "numeric_val dp =
     (let val_str = dict_get dp ''value'' JNull in
      if val_str \<noteq> JNull
      then (case py_float val_str of
              Inr f \<Rightarrow> Inr (Some f)
            | Inl e \<Rightarrow> if e = ValueError then Inr None else Inl e)
      else Inr None)"

text \<open>\<^verbatim>\<open>numeric_val == 1.0\<close>, where \<^verbatim>\<open>numeric_val\<close> may be \<^verbatim>\<open>None\<close>.\<close>

fun equals_one :: "pyfloat option \<Rightarrow> bool" where
  "equals_one None = False"
| "equals_one (Some f) = float_eq f (Fin 1)"

text \<open>
  The body of the loop (lines 244--268) on one entry \<^verbatim>\<open>dp\<close>. An entry that is not a dict
  has no \<^verbatim>\<open>get\<close>.
\<close>

definition parse_datapoint :: "snapshot \<Rightarrow> json \<Rightarrow> py_error + snapshot" where
  "parse_datapoint parsed dp =
     (if \<not> is_dict dp then Inl AttributeError
      else let name = dict_get (items dp) ''dataPointName'' (JStr []) in
        case numeric_val (items dp) of
          Inl e \<Rightarrow> Inl e
        | Inr nv \<Rightarrow>
            Inr (if name = JStr ''Humidity Average'' \<and> nv \<noteq> None
                 then parsed(''humidity_avg'' \<mapsto> Number (the nv))
                 else if name = JStr ''Temperature Average'' \<and> nv \<noteq> None
                 then parsed(''temperature_avg'' \<mapsto> Number (the nv))
                 else if name = JStr ''Humidity Reference'' \<and> nv \<noteq> None
                 then parsed(''target_humidity'' \<mapsto> Number (the nv))
                 else if name = JStr ''Area OnOff''
                 then parsed(''is_on'' \<mapsto> Flag (equals_one nv))
                 else parsed))"

fun parse_datapoints :: "snapshot \<Rightarrow> json list \<Rightarrow> py_error + snapshot" where
  "parse_datapoints parsed [] = Inr parsed"
| "parse_datapoints parsed (dp # dps) =
     (case parse_datapoint parsed dp of
        Inl e \<Rightarrow> Inl e
      | Inr parsed' \<Rightarrow> parse_datapoints parsed' dps)"

definition get_latest_datapoints :: "string \<Rightarrow> condair_api \<Rightarrow> snapshot outcome" where
  "get_latest_datapoints unique_id s =
     (case maybe_refresh_token s of
        (Inl e, s1) \<Rightarrow> (Inl e, s1)
      | (Inr _, s1) \<Rightarrow>
          (case get_request (''api/condair/sensor-instances/'' @ unique_id
                               @ ''/latest-datapoint-values'') s1 of
             (Inl e, s2) \<Rightarrow> (Inl e, s2)
           | (Inr raw_data, s2) \<Rightarrow>
               if is_list raw_data
               then (parse_datapoints Map.empty (elements raw_data), s2)
               else (Inr Map.empty,
                     logger WARNING ''Expected a list from latest-datapoint-values, got: %s'' s2)))"

subsection \<open>Actions (lines 275--324)\<close>

definition get_actions :: "string \<Rightarrow> condair_api \<Rightarrow> json list outcome" where
  "get_actions unique_id s =
     (case maybe_refresh_token s of
        (Inl e, s1) \<Rightarrow> (Inl e, s1)
      | (Inr _, s1) \<Rightarrow>
          (case get_request (''api/condair/sensor-instances/'' @ unique_id @ ''/actions'') s1 of
             (Inl e, s2) \<Rightarrow> (Inl e, s2)
           | (Inr resp, s2) \<Rightarrow>
               if is_list resp then (Inr (elements resp), s2)
               else (Inr [], logger WARNING ''Expected list from get_actions, got: %s'' s2)))"

definition invoke_payload :: "json \<Rightarrow> string \<Rightarrow> string \<Rightarrow> json" where
  "invoke_payload action_id unique_id variable_value =
     JDict [(''actionId'', action_id),
            (''uniqueId'', JStr unique_id),
            (''variables'',
             JList [JDict [(''value'', JStr variable_value), (''varName'', JStr ''$value$'')]])]"

definition invoke_action :: "json \<Rightarrow> string \<Rightarrow> string \<Rightarrow> condair_api \<Rightarrow> bool outcome" where
  "invoke_action action_id unique_id variable_value s =
     (case maybe_refresh_token s of
        (Inl e, s1) \<Rightarrow> (Inl e, s1)
      | (Inr _, s1) \<Rightarrow>
          (case post_request ''api/condair/invoke-action''
                  (invoke_payload action_id unique_id variable_value) s1 of
             (Inl e, s2) \<Rightarrow>
               if is_ClientError e
               then (Inr False, logger ERROR ''Network error on invoke_action: %s'' s2)
               else (Inl e, s2)
           | (Inr resp, s2) \<Rightarrow>
               if is_dict resp \<and> has_key (items resp) ''error''
               then (Inr False, logger ERROR ''invoke_action returned error: %s'' s2)
               else (Inr True, s2)))"





definition close_session :: "condair_api \<Rightarrow> condair_api" where
  "close_session s =
     (if session s = Open_Session
      then logger DEBUG ''Closed aiohttp session.'' (s\<lparr>session := No_Session\<rparr>)
      else s)"


subsection \<open>Construction (lines 18--34)\<close>

text \<open>
  \<^verbatim>\<open>CondairApi()\<close> with no session and the default base URL, placed in an environment
  that answers with \<open>rs\<close> and whose clock reads \<open>cl\<close>.
\<close>

definition init :: "(nat \<Rightarrow> http_outcome) \<Rightarrow> (nat \<Rightarrow> pyfloat) \<Rightarrow> condair_api" where
  "init rs cl =
     \<lparr>replies = rs,
      sent = [],
      clock = cl,
      ticks = 0,
      logged = [],
      session = No_Session,
      base_url = ''https://hlkc-api-management.azure-api.net'',
      access_token = JNull,
      refresh_token = JNull,
      token_expires_at = Fin 0,
      username = None,
      password = None\<rparr>"

text \<open>A script of replies: the listed outcomes in order, then \<open>dflt\<close> for ever.\<close>

definition script :: "http_outcome list \<Rightarrow> http_outcome \<Rightarrow> nat \<Rightarrow> http_outcome" where
  "script outs dflt n = (if n < length outs then outs ! n else dflt)"


section \<open>Vocabulary of the properties\<close>

text \<open>
  In a state \<open>s\<close> the client has issued \<open>length (sent s)\<close> requests, so the answer its next
  request will meet is \<open>replies s (length (sent s))\<close>, and the one after that is
  \<open>replies s (Suc (length (sent s)))\<close>. The time its next reading of the clock will give
  is \<open>clock s (ticks s)\<close>.
\<close>

text \<open>
  The number of seconds lines 125--129 (and 168--172) read from a response: the value of
  \<^verbatim>\<open>int(expires_in)\<close>, 3600 when the field is absent or \<^verbatim>\<open>int\<close> raises
  \<^verbatim>\<open>ValueError\<close>, and \<open>None\<close> when \<^verbatim>\<open>int\<close> raises anything else.
\<close>

definition expires_in :: "(string \<times> json) list \<Rightarrow> int option" where
  "expires_in d =
     (let e = dict_get d ''expires_in'' (JStr ''3600'') in
      if py_int e = Inl ValueError then Some 3600
      else case py_int e of Inr n \<Rightarrow> Some n | Inl _ \<Rightarrow> None)"

text \<open>The requests the token lifecycle issues from a state \<open>s\<close>.\<close>

definition signin_request :: "string \<Rightarrow> string \<Rightarrow> condair_api \<Rightarrow> request" where
  "signin_request usr pwd s =
     \<lparr>meth = POST, url = base_url s @ ''/userapi/users/signin'',
      body = Some (JDict [(''username'', JStr usr), (''password'', JStr pwd)]),
      bearer = get_auth_header s\<rparr>"

definition refresh_request :: "condair_api \<Rightarrow> request" where
  "refresh_request s =
     \<lparr>meth = POST, url = base_url s @ ''/userapi/users/refresh'',
      body = Some (JDict [(''refresh_token'', refresh_token s)]),
      bearer = get_auth_header s\<rparr>"

text \<open>An entry of the datapoint list: whether its name is exactly \<open>nm\<close>, and its value.\<close>

definition named :: "string \<Rightarrow> json \<Rightarrow> bool" where
  "named nm dp = (dict_get (items dp) ''dataPointName'' (JStr []) = JStr nm)"

definition value_of :: "json \<Rightarrow> json" where
  "value_of dp = dict_get (items dp) ''value'' JNull"

text \<open>The float an entry's value parses to, if \<^verbatim>\<open>float\<close> returns one.\<close>

definition number_of :: "json \<Rightarrow> pyfloat option" where
  "number_of dp = (case py_float (value_of dp) of Inr f \<Rightarrow> Some f | Inl _ \<Rightarrow> None)"

text \<open>
  An entry the loop gets past: a mapping whose value is absent or null, or on which
  \<^verbatim>\<open>float\<close> returns or raises \<^verbatim>\<open>ValueError\<close>.
\<close>

definition readable :: "json \<Rightarrow> bool" where
  "readable dp =
     (is_dict dp \<and>
      (value_of dp = JNull \<or>
       (case py_float (value_of dp) of Inr _ \<Rightarrow> True | Inl e \<Rightarrow> e = ValueError)))"

text \<open>The entry \<^verbatim>\<open>{"dataPointName": nm, "value": v}\<close>.\<close>

definition datapoint :: "string \<Rightarrow> json \<Rightarrow> json" where
  "datapoint nm v = JDict [(''dataPointName'', JStr nm), (''value'', v)]"



text \<open>The request \<^verbatim>\<open>invoke_action\<close> posts from a state \<open>s\<close>.\<close>

definition invoke_request :: "json \<Rightarrow> string \<Rightarrow> string \<Rightarrow> condair_api \<Rightarrow> request" where
  "invoke_request action_id unique_id variable_value s =
     \<lparr>meth = POST, url = base_url s @ ''/api/condair/invoke-action'',
      body = Some (invoke_payload action_id unique_id variable_value),
      bearer = get_auth_header s\<rparr>"

subsection \<open>Example clients\<close>

text \<open>
  A client that signed in as \<^verbatim>\<open>user\<close> some time ago: it holds an access token and a
  refresh token, its deadline (0) has passed on a clock that reads 100, and the server will
  answer with \<open>rs\<close>.
\<close>

definition expired_client :: "(nat \<Rightarrow> http_outcome) \<Rightarrow> condair_api" where
  "expired_client rs =
     (init rs (\<lambda>_. Fin 100))
       \<lparr>access_token := JStr ''stale'', refresh_token := JStr ''r1'',
        username := Some ''user'', password := Some ''secret''\<rparr>"

text \<open>The same client when the server never handed it a refresh token.\<close>

definition no_refresh_client :: "(nat \<Rightarrow> http_outcome) \<Rightarrow> condair_api" where
  "no_refresh_client rs = (expired_client rs)\<lparr>refresh_token := JNull\<rparr>"

text \<open>The same client before its deadline: the clock reads 100, the deadline is 200.\<close>

definition valid_client :: "(nat \<Rightarrow> http_outcome) \<Rightarrow> condair_api" where
  "valid_client rs = (expired_client rs)\<lparr>token_expires_at := Fin 200\<rparr>"

text \<open>
  A new client whose sign-in is answered with an access token and \<^verbatim>\<open>"refresh_token": null\<close>,
  on a clock that reads 100 at the sign-in and 10000 ever after.
\<close>

definition later_clock :: "nat \<Rightarrow> pyfloat" where
  "later_clock n = (if n = 0 then Fin 100 else Fin 10000)"

definition signs_in_without_refresh_token :: condair_api where
  "signs_in_without_refresh_token =
     init (script [Json_Body (JDict [(''access_token'', JStr ''a1''),
                                     (''refresh_token'', JNull)])] Transport_Failure)
          later_clock"

definition refresh_rejected :: http_outcome where
  "refresh_rejected = Json_Body (JDict [(''error'', JStr ''invalid_grant'')])"

definition signin_rejected :: http_outcome where
  "signin_rejected = Json_Body (JDict [(''error'', JStr ''invalid_client'')])"

definition signin_accepted :: http_outcome where
  "signin_accepted =
     Json_Body (JDict [(''access_token'', JStr ''a2''), (''refresh_token'', JStr ''r2'')])"

text \<open>A sign-in answer with both tokens and \<^verbatim>\<open>"expires_in": null\<close>.\<close>

definition signin_null_expiry :: http_outcome where
  "signin_null_expiry =
     Json_Body (JDict [(''access_token'', JStr ''a2''), (''refresh_token'', JStr ''r2''),
                       (''expires_in'', JNull)])"

section \<open>Basic facts\<close>

subsection \<open>Floats of small integers are exact\<close>

lemma round_half_even_of_int: "round_half_even (of_int k) = k"
  by (simp add: round_half_even_def)

lemma bitlen_le_53:
  fixes n :: int
  assumes "0 < n" "n < 2 ^ 53"
  shows "1 \<le> bitlen n \<and> bitlen n \<le> 53"
proof -
  have b1: "1 \<le> bitlen n" using assms(1) by (simp add: bitlen_alt_def)
  have "(2::int) ^ nat (bitlen n - 1) \<le> n" using bitlen_bounds[OF assms(1)] by simp
  then have lt: "(2::int) ^ nat (bitlen n - 1) < 2 ^ 53" using assms(2) by linarith
  have "\<not> 53 \<le> nat (bitlen n - 1)"
  proof
    assume "53 \<le> nat (bitlen n - 1)"
    then have "(2::int) ^ 53 \<le> 2 ^ nat (bitlen n - 1)" by (rule power_increasing) simp
    with lt show False by linarith
  qed
  then show ?thesis using b1 by linarith
qed

lemma binary64_of_int:
  assumes "\<bar>m\<bar> < (2::int) ^ 53"
  shows "binary64 (of_int m) = Fin (of_int m)"
proof (cases "m = 0")
  case True
  then show ?thesis by (simp add: binary64_def)
next
  case False
  define n where "n = \<bar>m\<bar>"
  have n: "0 < n" "n < 2 ^ 53" using False assms by (simp_all add: n_def)
  define b where "b = bitlen n"
  have b: "1 \<le> b" "b \<le> 53" using bitlen_le_53[OF n] by (simp_all add: b_def)
  define k where "k = nat (53 - b)"
  have a: "\<bar>real_of_int m\<bar> = of_int n" by (simp add: n_def)
  have il: "ilog2 (of_int n) = b - 1"
    using n(1) by (simp add: ilog2_def b_def)
  have e: "max (b - 1) (- 1022) = b - 1" using b by simp
  have ulp: "(2::real) powi (b - 1 - 52) = 1 / 2 ^ k"
  proof -
    have "b - 1 - 52 = - int k" using b by (simp add: k_def)
    then have "(2::real) powi (b - 1 - 52) = 2 powi (- int k)" by (simp only:)
    also have "\<dots> = inverse (2 ^ k)" by (simp only: power_int_minus power_int_of_nat)
    finally show ?thesis by (simp add: inverse_eq_divide)
  qed
  have q: "real_of_int n / (1 / 2 ^ k) = of_int (n * 2 ^ k)" by simp
  have r: "of_int (round_half_even (real_of_int n / (1 / 2 ^ k))) * (1 / 2 ^ k) = real_of_int n"
    unfolding q round_half_even_of_int by simp
  have small: "\<not> (2::real) ^ 1024 \<le> of_int n"
  proof -
    have "real_of_int n < 2 ^ 53" using n(2) by (metis of_int_less_numeral_power_cancel_iff)
    moreover have "(2::real) ^ 53 \<le> 2 ^ 1024" by (rule power_increasing) simp_all
    ultimately show ?thesis by linarith
  qed
  have nz: "real_of_int m \<noteq> 0" using False by simp
  show ?thesis
    unfolding binary64_def Let_def a il e ulp r
    using nz small False by (auto simp: n_def)
qed

lemma binary64_numeral:
  "numeral w < (2::int) ^ 53 \<Longrightarrow> binary64 (numeral w) = Fin (numeral w)"
  using binary64_of_int[of "numeral w"] by simp

lemma binary64_one: "binary64 1 = Fin 1"
  using binary64_of_int[of 1] by simp

lemma float_of_int_small: "\<bar>n\<bar> < 2 ^ 53 \<Longrightarrow> float_of_int n = Inr (Fin (of_int n))"
  by (simp add: float_of_int_def binary64_of_int)


subsection \<open>Requests and the log leave the tokens alone\<close>

lemma logger_fields [simp]:
  "session (logger l m s) = session s"
  "base_url (logger l m s) = base_url s"
  "access_token (logger l m s) = access_token s"
  "refresh_token (logger l m s) = refresh_token s"
  "token_expires_at (logger l m s) = token_expires_at s"
  "username (logger l m s) = username s"
  "password (logger l m s) = password s"
  "replies (logger l m s) = replies s"
  "sent (logger l m s) = sent s"
  "clock (logger l m s) = clock s"
  "ticks (logger l m s) = ticks s"
  "logged (logger l m s) = logged s @ [(l, m)]"
  by (simp_all add: logger_def)

lemma get_auth_header_logger [simp]: "get_auth_header (logger l m s) = get_auth_header s"
  by (simp add: get_auth_header_def)

lemma post_request_fst:
  "fst (post_request ep d s) =
     (case replies s (length (sent s)) of
        Transport_Failure \<Rightarrow> Inl ClientError
      | Timed_Out \<Rightarrow> Inl TimeoutError
      | Bad_Status code \<Rightarrow> Inl (ClientResponseError code)
      | Json_Body j \<Rightarrow> Inr j
      | Malformed_Json \<Rightarrow> Inl JSONDecodeError
      | Other_Body txt \<Rightarrow> Inr (JDict []))"
  by (simp add: post_request_def transmit_def ensure_session_def Let_def split: http_outcome.splits)

lemma get_request_fst:
  "fst (get_request ep s) =
     (case replies s (length (sent s)) of
        Transport_Failure \<Rightarrow> Inl ClientError
      | Timed_Out \<Rightarrow> Inl TimeoutError
      | Bad_Status code \<Rightarrow> Inl (ClientResponseError code)
      | Json_Body j \<Rightarrow> Inr j
      | Malformed_Json \<Rightarrow> Inl JSONDecodeError
      | Other_Body txt \<Rightarrow> Inr (JDict []))"
  by (simp add: get_request_def transmit_def ensure_session_def Let_def split: http_outcome.splits)

lemma post_request_fields [simp]:
  "base_url (snd (post_request ep d s)) = base_url s"
  "access_token (snd (post_request ep d s)) = access_token s"
  "refresh_token (snd (post_request ep d s)) = refresh_token s"
  "token_expires_at (snd (post_request ep d s)) = token_expires_at s"
  "username (snd (post_request ep d s)) = username s"
  "password (snd (post_request ep d s)) = password s"
  "replies (snd (post_request ep d s)) = replies s"
  "clock (snd (post_request ep d s)) = clock s"
  "ticks (snd (post_request ep d s)) = ticks s"
  "sent (snd (post_request ep d s)) =
     sent s @ [\<lparr>meth = POST, url = base_url s @ ''/'' @ ep, body = Some d,
                bearer = get_auth_header s\<rparr>]"
  by (simp_all add: post_request_def transmit_def ensure_session_def get_auth_header_def Let_def
        split: http_outcome.splits)

lemma get_request_fields [simp]:
  "base_url (snd (get_request ep s)) = base_url s"
  "access_token (snd (get_request ep s)) = access_token s"
  "refresh_token (snd (get_request ep s)) = refresh_token s"
  "token_expires_at (snd (get_request ep s)) = token_expires_at s"
  "username (snd (get_request ep s)) = username s"
  "password (snd (get_request ep s)) = password s"
  "replies (snd (get_request ep s)) = replies s"
  "clock (snd (get_request ep s)) = clock s"
  "ticks (snd (get_request ep s)) = ticks s"
  "sent (snd (get_request ep s)) =
     sent s @ [\<lparr>meth = GET, url = base_url s @ ''/'' @ ep, body = None,
                bearer = get_auth_header s\<rparr>]"
  by (simp_all add: get_request_def transmit_def ensure_session_def get_auth_header_def Let_def
        split: http_outcome.splits)

lemma get_auth_header_post [simp]:
  "get_auth_header (snd (post_request ep d s)) = get_auth_header s"
  by (simp add: get_auth_header_def)

lemma get_auth_header_get [simp]:
  "get_auth_header (snd (get_request ep s)) = get_auth_header s"
  by (simp add: get_auth_header_def)

lemma authenticate_no_client_error:
  "fst (authenticate usr pwd s) = Inl e \<Longrightarrow> \<not> is_ClientError e"
  by (auto simp: authenticate_def split: prod.splits sum.splits if_splits
        elim: is_ClientResponseError.elims)

lemma authenticate_error_field:
  assumes "replies s (length (sent s)) = Json_Body (JDict d)" "has_key d ''error''"
  shows "fst (authenticate usr pwd s) = Inr False"
  using assms
  by (simp add: authenticate_def authenticate_try_def case_prod_unfold post_request_fst)

lemma refresh_try_error_field:
  assumes "replies s (length (sent s)) = Json_Body (JDict d)" "has_key d ''error''"
  shows "refresh_try s =
     (if str_truthy (username s) \<and> str_truthy (password s) 
      then authenticate (the (username s)) (the (password s)) 
          (logger WARNING ''Trying to re-authenticate.'' (logger ERROR ''Refresh token error: %s''
             (snd (post_request ''userapi/users/refresh'' (JDict [(''refresh_token'', refresh_token s)]) s))))
      else (Inr False, logger ERROR ''No username/password to re-authenticate.'' (logger ERROR ''Refresh token error: %s''
             (snd (post_request ''userapi/users/refresh'' (JDict [(''refresh_token'', refresh_token s)]) s)))))"
  using assms
  by (simp add: refresh_try_def case_prod_unfold post_request_fst Let_def)

lemma handler_id:
  assumes "\<And>e. fst r = Inl e \<Longrightarrow> \<not> is_ClientError e"
  shows "(case r of (Inl e, s1) \<Rightarrow> if is_ClientError e then (Inr False, h s1) else (Inl e, s1)
          | (Inr b, s1) \<Rightarrow> (Inr b, s1)) = r"
  using assms by (cases r; cases "fst r") auto

lemma refresh_error_field:
  assumes "replies s (length (sent s)) = Json_Body (JDict d)" "has_key d ''error''" "truthy (refresh_token s)"
  shows "refresh_access_token s = 
     (if str_truthy (username s) \<and> str_truthy (password s) 
      then authenticate (the (username s)) (the (password s)) 
          (logger WARNING ''Trying to re-authenticate.'' (logger ERROR ''Refresh token error: %s''
             (snd (post_request ''userapi/users/refresh'' (JDict [(''refresh_token'', refresh_token s)]) s))))
      else (Inr False, logger ERROR ''No username/password to re-authenticate.'' (logger ERROR ''Refresh token error: %s''
             (snd (post_request ''userapi/users/refresh'' (JDict [(''refresh_token'', refresh_token s)]) s)))))"
proof -
  have "refresh_access_token s = refresh_try s"
    unfolding refresh_access_token_def using assms(3)
    by (simp add: refresh_try_error_field[OF assms(1,2)] handler_id authenticate_no_client_error)
  then show ?thesis by (simp add: refresh_try_error_field[OF assms(1,2)])
qed


lemma int_of_string_3600: "int_of_string ''3600'' = Inr 3600"
  by (simp add: int_of_string_def strip_def is_space_def drop_underscores_def is_digit_def
        nat_of_digits_def digit_val_def)

lemma set_expiry_fields [simp]:
  "base_url (snd (set_expiry d s)) = base_url s"
  "access_token (snd (set_expiry d s)) = access_token s"
  "refresh_token (snd (set_expiry d s)) = refresh_token s"
  "username (snd (set_expiry d s)) = username s"
  "password (snd (set_expiry d s)) = password s"
  "replies (snd (set_expiry d s)) = replies s"
  "clock (snd (set_expiry d s)) = clock s"
  "sent (snd (set_expiry d s)) = sent s"
  "logged (snd (set_expiry d s)) = logged s"
  by (simp_all add: set_expiry_def time_time_def Let_def split: sum.splits)

lemma set_expiry_absent:
  assumes "map_of d ''expires_in'' = None"
  shows "set_expiry d s =
     (Inr 3600, s\<lparr>ticks := Suc (ticks s),
                  token_expires_at := float_sub (float_add (clock s (ticks s)) (Fin 3600)) (Fin 30)\<rparr>)"
  using assms
  by (simp add: set_expiry_def dict_get_def int_of_string_3600 float_of_int_small time_time_def)

lemma set_expiry_null:
  assumes "map_of d ''expires_in'' = Some JNull"
  shows "set_expiry d s = (Inl TypeError, s)"
  using assms by (simp add: set_expiry_def dict_get_def)

lemma authenticate_sent [simp]:
  "sent (snd (authenticate usr pwd s)) =
     sent s @ [\<lparr>meth = POST, url = base_url s @ ''/userapi/users/signin'',
                body = Some (JDict [(''username'', JStr usr), (''password'', JStr pwd)]),
                bearer = get_auth_header s\<rparr>]"
  by (simp add: authenticate_def authenticate_try_def case_prod_unfold Let_def split: sum.splits)

lemma authenticate_env [simp]:
  "base_url (snd (authenticate usr pwd s)) = base_url s"
  "replies (snd (authenticate usr pwd s)) = replies s"
  "clock (snd (authenticate usr pwd s)) = clock s"
  by (simp_all add: authenticate_def authenticate_try_def case_prod_unfold Let_def split: sum.splits)


lemma float_lt_not_ge: "float_lt a b \<Longrightarrow> \<not> float_ge a b"
  by (cases a; cases b) auto

subsection \<open>Reading \<^verbatim>\<open>expires_in\<close>\<close>

lemma set_expiry_read:
  assumes "expires_in d = Some n" "float_of_int n = Inr f"
  shows "set_expiry d s =
     (Inr n, s\<lparr>ticks := Suc (ticks s),
               token_expires_at := float_sub (float_add (clock s (ticks s)) f) (Fin 30)\<rparr>)"
  using assms
  by (auto simp: set_expiry_def expires_in_def time_time_def Let_def split: if_splits sum.splits)

lemma expires_in_absent: "map_of d ''expires_in'' = None \<Longrightarrow> expires_in d = Some 3600"
  by (simp add: expires_in_def dict_get_def int_of_string_3600)

text \<open>
  What \<^verbatim>\<open>authenticate\<close> does with a sign-in answer whose \<^verbatim>\<open>expires_in\<close> it can read:
  it succeeds, stores the tokens and the credentials, and sets the deadline to
  \<^verbatim>\<open>now + expires_in - 30\<close>.
\<close>

lemma authenticate_accepts:
  assumes "replies s (length (sent s)) = Json_Body (JDict d)"
      and "\<not> has_key d ''error''" "has_key d ''access_token''" "has_key d ''refresh_token''"
      and "expires_in d = Some n" "float_of_int n = Inr f"
  shows "fst (authenticate usr pwd s) = Inr True"
    and "access_token (snd (authenticate usr pwd s)) = dict_get d ''access_token'' JNull"
    and "refresh_token (snd (authenticate usr pwd s)) = dict_get d ''refresh_token'' JNull"
    and "username (snd (authenticate usr pwd s)) = Some usr"
    and "password (snd (authenticate usr pwd s)) = Some pwd"
    and "token_expires_at (snd (authenticate usr pwd s)) =
           float_sub (float_add (clock s (ticks s)) f) (Fin 30)"
  using assms
  by (simp_all add: authenticate_def authenticate_try_def case_prod_unfold post_request_fst
        set_expiry_read[where n = n and f = f])

subsection \<open>The example clients\<close>

lemmas example_defs = init_def expired_client_def no_refresh_client_def valid_client_def
  refresh_rejected_def signin_rejected_def signin_accepted_def

lemma script_simps [simp]:
  "script [] dflt n = dflt"
  "script (x # xs) dflt 0 = x"
  "script (x # xs) dflt (Suc n) = script xs dflt n"
  by (simp_all add: script_def)

subsection \<open>The token lifecycle\<close>

lemma refresh_no_token:
  "\<not> truthy (refresh_token s) \<Longrightarrow>
     refresh_access_token s = (Inr False, logger ERROR ''No refresh token available.'' s)"
  by (simp add: refresh_access_token_def)

lemma refresh_sent:
  "sent (snd (refresh_access_token s)) = sent (snd (refresh_try s))" if "truthy (refresh_token s)"
  using that by (simp add: refresh_access_token_def case_prod_unfold split: sum.splits)

lemma refresh_try_sent_take:
  "take (Suc (length (sent s))) (sent (snd (refresh_try s))) = sent s @ [refresh_request s]"
  by (simp add: refresh_try_def case_prod_unfold Let_def refresh_request_def split: sum.splits)

lemma refresh_sent_take:
  "truthy (refresh_token s) \<Longrightarrow>
     take (Suc (length (sent s))) (sent (snd (refresh_access_token s))) = sent s @ [refresh_request s]"
  by (simp add: refresh_sent refresh_try_sent_take)

lemma refresh_transport:
  assumes "truthy (refresh_token s)"
      and "replies s (length (sent s)) = Transport_Failure \<or> replies s (length (sent s)) = Bad_Status c"
  shows "fst (refresh_access_token s) = Inr False"
    and "sent (snd (refresh_access_token s)) = sent s @ [refresh_request s]"
  using assms
  by (auto simp: refresh_access_token_def refresh_try_def case_prod_unfold post_request_fst
        refresh_request_def)

lemma maybe_refresh_no_token:
  "\<not> truthy (access_token s) \<Longrightarrow>
     maybe_refresh_token s =
       (Inr False, logger WARNING ''No access token; must authenticate first.'' s)"
  by (simp add: maybe_refresh_token_def)

lemma maybe_refresh_valid:
  "truthy (access_token s) \<Longrightarrow> \<not> float_ge (clock s (ticks s)) (token_expires_at s) \<Longrightarrow>
     maybe_refresh_token s = (Inr True, s\<lparr>ticks := Suc (ticks s)\<rparr>)"
  by (simp add: maybe_refresh_token_def time_time_def)

lemma maybe_refresh_expired:
  "truthy (access_token s) \<Longrightarrow> float_ge (clock s (ticks s)) (token_expires_at s) \<Longrightarrow>
     maybe_refresh_token s =
       refresh_access_token
         (logger DEBUG ''Token expired or expiring soon, refreshing.''
            (s\<lparr>ticks := Suc (ticks s)\<rparr>))"
  by (simp add: maybe_refresh_token_def time_time_def)

lemma authenticate_accepts_ticks:
  assumes "replies s (length (sent s)) = Json_Body (JDict d)"
      and "\<not> has_key d ''error''" "has_key d ''access_token''" "has_key d ''refresh_token''"
      and "expires_in d = Some n" "float_of_int n = Inr f"
  shows "ticks (snd (authenticate usr pwd s)) = Suc (ticks s)"
  using assms
  by (simp add: authenticate_def authenticate_try_def case_prod_unfold post_request_fst
        set_expiry_read[where n = n and f = f])

lemma refresh_error_field_sent:
  assumes "replies s (length (sent s)) = Json_Body (JDict d)" "has_key d ''error''"
      and "truthy (refresh_token s)" "str_truthy (username s)" "str_truthy (password s)"
  shows "sent (snd (refresh_access_token s)) =
           sent s @ [refresh_request s, signin_request (the (username s)) (the (password s)) s]"
  using assms(4,5)
  by (simp add: refresh_error_field[OF assms(1-3)] refresh_request_def signin_request_def)

subsection \<open>Datapoints\<close>

lemmas parse_text_defs = strip_def is_space_def drop_underscores_def lower_def
  decimal_of_string_def is_digit_def nat_of_digits_def digit_val_def

lemma float_of_string_cases:
  "(\<exists>f. float_of_string t = Inr f) \<or> float_of_string t = Inl ValueError"
  by (auto simp: float_of_string_def Let_def split: prod.splits option.splits)

lemma equals_one_iff: "equals_one nv \<longleftrightarrow> nv = Some (Fin 1)"
  by (cases nv; cases "the nv") auto

lemma numeric_val_equals_one:
  assumes "numeric_val d = Inr nv"
  shows "equals_one nv \<longleftrightarrow> py_float (dict_get d ''value'' JNull) = Inr (Fin 1)"
  using assms
  by (auto simp: numeric_val_def equals_one_iff Let_def split: if_splits sum.splits)

lemma numeric_val_returns:
  "(\<exists>nv. numeric_val d = Inr nv) \<longleftrightarrow>
     py_float (dict_get d ''value'' JNull) \<noteq> Inl OverflowError \<and>
     (dict_get d ''value'' JNull = JNull \<or> py_float (dict_get d ''value'' JNull) \<noteq> Inl TypeError)"
proof -
  have "\<And>e. py_float v = Inl e \<Longrightarrow> e = TypeError \<or> e = ValueError \<or> e = OverflowError" for v
    using float_of_string_cases
    by (cases v) (auto simp: float_of_int_def split: pyfloat.splits, metis Inl_inject sum.distinct(1))
  then show ?thesis
    by (auto simp: numeric_val_def Let_def split: sum.splits) 
qed

lemma parse_datapoint_on_off:
  assumes "parse_datapoint parsed dp = Inr parsed'" "named ''Area OnOff'' dp"
  shows "parsed' = parsed(''is_on'' \<mapsto> Flag (py_float (value_of dp) = Inr (Fin 1)))"
  using assms
  by (auto simp: parse_datapoint_def named_def value_of_def Let_def numeric_val_equals_one
        split: if_splits sum.splits)

lemma parse_datapoint_other:
  assumes "parse_datapoint parsed dp = Inr parsed'" "\<not> named ''Area OnOff'' dp"
  shows "parsed' ''is_on'' = parsed ''is_on''"
  using assms
  by (auto simp: parse_datapoint_def named_def Let_def split: if_splits sum.splits)

lemma find_snoc:
  "find P (xs @ [x]) =
     (case find P xs of None \<Rightarrow> (if P x then Some x else None) | Some y \<Rightarrow> Some y)"
  by (induction xs) auto

lemma parse_datapoints_is_on:
  assumes "parse_datapoints parsed dps = Inr snap"
  shows "snap ''is_on'' =
           (case find (named ''Area OnOff'') (rev dps) of
              None \<Rightarrow> parsed ''is_on''
            | Some dp \<Rightarrow> Some (Flag (py_float (value_of dp) = Inr (Fin 1))))"
  using assms
proof (induction dps arbitrary: parsed)
  case Nil
  then show ?case by simp
next
  case (Cons dp dps)
  from Cons.prems obtain p where p: "parse_datapoint parsed dp = Inr p"
    and rest: "parse_datapoints p dps = Inr snap"
    by (auto split: sum.splits)
  have here: "p ''is_on'' = (if named ''Area OnOff'' dp
                             then Some (Flag (py_float (value_of dp) = Inr (Fin 1)))
                             else parsed ''is_on'')"
    using parse_datapoint_on_off[OF p] parse_datapoint_other[OF p] by auto
  show ?case
    using Cons.IH[OF rest] here
    by (simp add: find_snoc split: option.splits)
qed

lemma get_latest_datapoints_list:
  assumes "maybe_refresh_token s = (Inr b, s1)"
      and "replies s1 (length (sent s1)) = Json_Body (JList dps)"
  shows "fst (get_latest_datapoints uid s) = parse_datapoints Map.empty dps"
  using assms
  by (simp add: get_latest_datapoints_def case_prod_unfold get_request_fst)

lemma float_of_string_1: "float_of_string ''1'' = Inr (Fin 1)"
  by (simp add: float_of_string_def parse_text_defs binary64_one)

text \<open>Blanks around the number are dropped before it is read, as \<^verbatim>\<open>float\<close> and \<^verbatim>\<open>int\<close> do.\<close>

lemma float_of_string_blanks: "float_of_string '' 1 '' = Inr (Fin 1)"
  by (simp add: float_of_string_def parse_text_defs binary64_one)

lemma int_of_string_blanks: "int_of_string '' 3600 '' = Inr 3600"
  by (simp add: int_of_string_def parse_text_defs)

lemma float_of_string_0: "float_of_string ''0'' = Inr (Fin 0)"
  by (simp add: float_of_string_def parse_text_defs binary64_def)

lemma float_of_string_abc: "float_of_string ''abc'' = Inl ValueError"
  by (simp add: float_of_string_def parse_text_defs)

lemma float_of_string_45_2: "float_of_string ''45.2'' = Inr (binary64 (452 / 10))"
  by (simp add: float_of_string_def parse_text_defs)

lemma valid_client_token:
  "maybe_refresh_token (valid_client rs) =
     (Inr True, (valid_client rs)\<lparr>ticks := Suc (ticks (valid_client rs))\<rparr>)"
  by (rule maybe_refresh_valid) (simp_all add: example_defs)

text \<open>
  What the loop does with entries it gets past (\<open>readable\<close>): the name selects the field,
  a numeric field is written only when \<^verbatim>\<open>float\<close> returned a number, any other name leaves
  the snapshot as it is, and a list of such entries always yields a snapshot. In any snapshot
  that is returned, each numeric field is that of the last entry with its name whose value
  parsed, and no key beyond the four is ever set. A response that is not a list yields the
  empty snapshot.
\<close>

lemma numeric_val_number_of:
  "numeric_val (items dp) = Inr nv \<Longrightarrow> nv = number_of dp"
  by (auto simp: numeric_val_def number_of_def value_of_def Let_def split: if_splits sum.splits)

lemma numeric_val_readable:
  "readable dp \<Longrightarrow> numeric_val (items dp) = Inr (number_of dp)"
  by (auto simp: readable_def numeric_val_def number_of_def value_of_def Let_def split: sum.splits)

lemma readable_string: "readable (datapoint nm (JStr t))"
  using float_of_string_cases[of t]
  by (auto simp: readable_def datapoint_def value_of_def dict_get_def split: sum.splits)

lemma readable_absent: "is_dict dp \<Longrightarrow> map_of (items dp) ''value'' = None \<Longrightarrow> readable dp"
  by (simp add: readable_def value_of_def dict_get_def)

lemma parse_datapoint_readable:
  assumes "readable dp"
  shows "parse_datapoint parsed dp =
     Inr (if named ''Humidity Average'' dp \<and> number_of dp \<noteq> None
          then parsed(''humidity_avg'' \<mapsto> Number (the (number_of dp)))
          else if named ''Temperature Average'' dp \<and> number_of dp \<noteq> None
          then parsed(''temperature_avg'' \<mapsto> Number (the (number_of dp)))
          else if named ''Humidity Reference'' dp \<and> number_of dp \<noteq> None
          then parsed(''target_humidity'' \<mapsto> Number (the (number_of dp)))
          else if named ''Area OnOff'' dp
          then parsed(''is_on'' \<mapsto> Flag (number_of dp = Some (Fin 1)))
          else parsed)"
proof -
  have "is_dict dp" using assms by (simp add: readable_def)
  then show ?thesis
    by (auto simp: parse_datapoint_def numeric_val_readable[OF assms] named_def equals_one_iff
          Let_def)
qed

lemma parse_datapoints_readable:
  "list_all readable dps \<Longrightarrow> \<exists>snap. parse_datapoints parsed dps = Inr snap"
  by (induction dps arbitrary: parsed) (simp_all add: parse_datapoint_readable)

lemma parse_datapoint_number:
  assumes "parse_datapoint parsed dp = Inr p"
      and "(nm, key) \<in> {(''Humidity Average'', ''humidity_avg''),
                         (''Temperature Average'', ''temperature_avg''),
                         (''Humidity Reference'', ''target_humidity'')}"
  shows "p key = (if named nm dp \<and> number_of dp \<noteq> None
                  then map_option Number (number_of dp) else parsed key)"
proof -
  from assms(1) obtain nv where nv: "numeric_val (items dp) = Inr nv" and d: "is_dict dp"
    by (auto simp: parse_datapoint_def Let_def split: if_splits sum.splits)
  have n: "nv = number_of dp" by (rule numeric_val_number_of[OF nv])
  show ?thesis
    using assms d
    by (auto simp: parse_datapoint_def nv n named_def Let_def)
qed

lemma parse_datapoints_number:
  assumes "parse_datapoints parsed dps = Inr snap"
      and "(nm, key) \<in> {(''Humidity Average'', ''humidity_avg''),
                         (''Temperature Average'', ''temperature_avg''),
                         (''Humidity Reference'', ''target_humidity'')}"
  shows "snap key =
           (case find (\<lambda>dp. named nm dp \<and> number_of dp \<noteq> None) (rev dps) of
              None \<Rightarrow> parsed key
            | Some dp \<Rightarrow> map_option Number (number_of dp))"
  using assms(1)
proof (induction dps arbitrary: parsed)
  case Nil
  then show ?case by simp
next
  case (Cons dp dps)
  from Cons.prems obtain p where p: "parse_datapoint parsed dp = Inr p"
    and rest: "parse_datapoints p dps = Inr snap"
    by (auto split: sum.splits)
  show ?case
    using Cons.IH[OF rest] parse_datapoint_number[OF p assms(2)]
    by (auto simp: find_snoc split: option.splits)
qed

lemma parse_datapoint_keys:
  assumes "parse_datapoint parsed dp = Inr p"
  shows "dom p \<subseteq> dom parsed \<union> {''humidity_avg'', ''temperature_avg'', ''target_humidity'', ''is_on''}"
  using assms
  by (auto simp: parse_datapoint_def Let_def split: if_splits sum.splits)

lemma parse_datapoints_keys:
  assumes "parse_datapoints parsed dps = Inr snap"
  shows "dom snap \<subseteq> dom parsed \<union> {''humidity_avg'', ''temperature_avg'', ''target_humidity'', ''is_on''}"
  using assms
proof (induction dps arbitrary: parsed)
  case Nil
  then show ?case by auto
next
  case (Cons dp dps)
  from Cons.prems obtain p where p: "parse_datapoint parsed dp = Inr p"
    and rest: "parse_datapoints p dps = Inr snap"
    by (auto split: sum.splits)
  show ?case using Cons.IH[OF rest] parse_datapoint_keys[OF p] by blast
qed

lemma get_latest_datapoints_not_list:
  assumes "maybe_refresh_token s = (Inr b, s1)"
      and "replies s1 (length (sent s1)) = Json_Body resp" "\<not> is_list resp"
  shows "fst (get_latest_datapoints uid s) = Inr Map.empty"
  using assms
  by (simp add: get_latest_datapoints_def case_prod_unfold get_request_fst)

subsection \<open>Actions\<close>





lemma invoke_action_sent:
  assumes "maybe_refresh_token s = (Inr b, s1)"
  shows "sent (snd (invoke_action aid uid v s)) = sent s1 @ [invoke_request aid uid v s1]"
  using assms
  by (simp add: invoke_action_def case_prod_unfold invoke_request_def split: sum.splits)


















subsection \<open>Devices\<close>

lemma get_devices_reply:
  assumes "maybe_refresh_token s = (Inr b, s1)"
  shows "get_devices s =
           (case get_request ''api/condair/sensor-instances?pageSize=999'' s1 of
              (Inl e, s2) \<Rightarrow> (Inl e, s2)
            | (Inr resp, s2) \<Rightarrow>
                if is_dict resp \<and> has_key (items resp) ''data''
                then (Inr (dict_get (items resp) ''data'' JNull), s2)
                else (Inr (JList []), logger WARNING ''Unexpected get_devices response: %s'' s2))"
  using assms by (simp add: get_devices_def)

subsection \<open>A failed token check leaves the tokens as they were\<close>

lemma int_of_string_cases:
  "(\<exists>n. int_of_string t = Inr n) \<or> int_of_string t = Inl ValueError"
  by (auto simp: int_of_string_def Let_def split: prod.splits)

lemma py_int_error:
  assumes "py_int v = Inl e"
  shows "e = TypeError \<or> e = ValueError \<or> e = OverflowError"
proof (cases v)
  case (JStr t)
  with assms int_of_string_cases[of t] show ?thesis by auto
next
  case (JFloat f)
  with assms show ?thesis by (cases f) auto
qed (use assms in auto)

lemma float_of_int_error: "float_of_int n = Inl e \<Longrightarrow> e = OverflowError"
  by (auto simp: float_of_int_def split: pyfloat.splits)

lemma set_expiry_error:
  assumes "fst (set_expiry d s) = Inl e"
  shows "e = TypeError \<or> e = OverflowError"
proof (cases "py_int (dict_get d ''expires_in'' (JStr ''3600'')) = Inl ValueError")
  case True
  then show ?thesis
    using assms float_of_int_error[of 3600 e]
    by (simp add: set_expiry_def time_time_def Let_def split: sum.splits)
next
  case False
  show ?thesis
  proof (cases "py_int (dict_get d ''expires_in'' (JStr ''3600''))")
    case (Inl e')
    with assms False have "e = e'" by (simp add: set_expiry_def)
    with py_int_error[OF Inl] False Inl show ?thesis by auto
  next
    case (Inr n)
    with assms False float_of_int_error[of n e] show ?thesis
      by (simp add: set_expiry_def time_time_def Let_def split: sum.splits)
  qed
qed

lemma set_expiry_no_client_error: "fst (set_expiry d s) = Inl e \<Longrightarrow> \<not> is_ClientError e"
  using set_expiry_error[of d s e] by auto

lemma set_expiry_no_response_error:
  "fst (set_expiry d s) = Inl e \<Longrightarrow> \<not> is_ClientResponseError e"
  using set_expiry_error[of d s e] by auto

lemma authenticate_failure_keeps_tokens:
  assumes "authenticate usr pwd s = (Inr False, s')"
  shows "access_token s' = access_token s \<and> refresh_token s' = refresh_token s"
  using assms
  by (auto simp: authenticate_def authenticate_try_def case_prod_unfold Let_def
        split: sum.splits if_splits
        dest: set_expiry_no_client_error set_expiry_no_response_error)

lemma refresh_failure_keeps_tokens:
  assumes "refresh_access_token s = (Inr False, s')"
  shows "access_token s' = access_token s \<and> refresh_token s' = refresh_token s"
proof (cases "truthy (refresh_token s)")
  case False
  then show ?thesis using assms by (auto simp: refresh_no_token)
next
  case True
  show ?thesis
  proof (cases "fst (post_request ''userapi/users/refresh'' (JDict [(''refresh_token'', refresh_token s)]) s)")
    case (Inl e)
    then show ?thesis
      using assms True
      by (auto simp: refresh_access_token_def refresh_try_def case_prod_unfold Let_def
            split: if_splits)
  next
    case (Inr resp)
    show ?thesis
    proof (cases "is_dict resp \<and> has_key (items resp) ''error''")
      case False
      then have f: "(is_dict resp \<and> has_key (items resp) ''error'') = False" by simp
      show ?thesis
        using assms True Inr
        by (auto simp: refresh_access_token_def refresh_try_def case_prod_unfold Let_def f
              split: if_splits sum.splits dest: set_expiry_no_client_error)
    next
      case e: True
      show ?thesis
      proof (cases "str_truthy (username s) \<and> str_truthy (password s)")
        case False
        then have f: "(str_truthy (username s) \<and> str_truthy (password s)) = False" by simp
        show ?thesis
          using assms True Inr e
          by (auto simp: refresh_access_token_def refresh_try_def case_prod_unfold Let_def f
                split: if_splits sum.splits)
      next
        case c: True
        let ?m = "logger WARNING ''Trying to re-authenticate.''
                   (logger ERROR ''Refresh token error: %s''
                     (snd (post_request ''userapi/users/refresh''
                            (JDict [(''refresh_token'', refresh_token s)]) s)))"
        have t: "refresh_try s = authenticate (the (username s)) (the (password s)) ?m"
          using Inr e c by (simp add: refresh_try_def case_prod_unfold Let_def)
        have "refresh_access_token s = refresh_try s"
          using True by (simp add: refresh_access_token_def t handler_id authenticate_no_client_error)
        with assms t have "authenticate (the (username s)) (the (password s)) ?m = (Inr False, s')"
          by simp
        from authenticate_failure_keeps_tokens[OF this] show ?thesis by simp
      qed
    qed
  qed
qed

lemma maybe_refresh_failure_keeps_tokens:
  assumes "maybe_refresh_token s = (Inr False, s1)"
  shows "access_token s1 = access_token s \<and> refresh_token s1 = refresh_token s"
proof (cases "truthy (access_token s)")
  case False
  then show ?thesis using assms by (auto simp: maybe_refresh_no_token)
next
  case True
  show ?thesis
  proof (cases "float_ge (clock s (ticks s)) (token_expires_at s)")
    case False
    then show ?thesis using assms True by (simp add: maybe_refresh_valid)
  next
    case ge: True
    from assms have "refresh_access_token
         (logger DEBUG ''Token expired or expiring soon, refreshing.''
            (s\<lparr>ticks := Suc (ticks s)\<rparr>)) = (Inr False, s1)"
      by (simp add: maybe_refresh_expired[OF True ge])
    from refresh_failure_keeps_tokens[OF this] show ?thesis by simp
  qed
qed

lemma get_devices_sent:
  assumes "maybe_refresh_token s = (Inr b, s1)"
  shows "sent (snd (get_devices s)) =
           sent s1 @ [\<lparr>meth = GET,
                       url = base_url s1 @ ''/api/condair/sensor-instances?pageSize=999'',
                       body = None, bearer = get_auth_header s1\<rparr>]"
  by (simp add: get_devices_def assms case_prod_unfold split: sum.splits)

lemma get_latest_datapoints_sent:
  assumes "maybe_refresh_token s = (Inr b, s1)"
  shows "sent (snd (get_latest_datapoints uid s)) =
           sent s1 @ [\<lparr>meth = GET,
                       url = base_url s1 @ ''/api/condair/sensor-instances/'' @ uid
                               @ ''/latest-datapoint-values'',
                       body = None, bearer = get_auth_header s1\<rparr>]"
  by (simp add: get_latest_datapoints_def assms case_prod_unfold split: sum.splits)

lemma get_actions_sent:
  assumes "maybe_refresh_token s = (Inr b, s1)"
  shows "sent (snd (get_actions uid s)) =
           sent s1 @ [\<lparr>meth = GET,
                       url = base_url s1 @ ''/api/condair/sensor-instances/'' @ uid @ ''/actions'',
                       body = None, bearer = get_auth_header s1\<rparr>]"
  by (simp add: get_actions_def assms case_prod_unfold split: sum.splits)

subsection \<open>A refresh answer that is accepted\<close>

lemma refresh_accepts:
  assumes "truthy (refresh_token s)"
      and "replies s (length (sent s)) = Json_Body (JDict d)" "\<not> has_key d ''error''"
      and "expires_in d = Some n" "float_of_int n = Inr f"
  shows "fst (refresh_access_token s) = Inr True"
    and "access_token (snd (refresh_access_token s)) = dict_get d ''access_token'' JNull"
    and "refresh_token (snd (refresh_access_token s)) = dict_get d ''refresh_token'' JNull"
    and "token_expires_at (snd (refresh_access_token s)) =
           float_sub (float_add (clock s (ticks s)) f) (Fin 30)"
    and "sent (snd (refresh_access_token s)) = sent s @ [refresh_request s]"
    and "ticks (snd (refresh_access_token s)) = Suc (ticks s)"
    and "clock (snd (refresh_access_token s)) = clock s"
  using assms
  by (simp_all add: refresh_access_token_def refresh_try_def case_prod_unfold post_request_fst
        set_expiry_read[where n = n and f = f] refresh_request_def)

lemma dict_get_absent: "\<not> has_key d k \<Longrightarrow> dict_get d k dflt = dflt"
  by (simp add: has_key_def dict_get_def split: option.splits)

lemma authenticate_missing_token:
  assumes "replies s (length (sent s)) = Json_Body (JDict d)"
      and "\<not> (has_key d ''access_token'' \<and> has_key d ''refresh_token'')"
  shows "fst (authenticate usr pwd s) = Inr False"
  using assms(2)
  by (cases "has_key d ''error''"; cases "has_key d ''access_token''";
      cases "has_key d ''refresh_token''")
     (simp_all add: authenticate_def authenticate_try_def case_prod_unfold post_request_fst
        assms(1))


section \<open>The claims\<close>

subsection \<open>C1: a sign-in answer with both tokens\<close>

text \<open>
  Claim C1 says that for every sign-in response that is a mapping with \<^verbatim>\<open>access_token\<close> and
  \<^verbatim>\<open>refresh_token\<close> and no \<^verbatim>\<open>error\<close>, \<^verbatim>\<open>authenticate\<close> returns success, stores the
  tokens and the credentials and sets \<^verbatim>\<open>expires_at = now + expires_in - 30\<close>, with
  \<^verbatim>\<open>expires_in\<close> defaulting to 3600 when the field is absent or not parsable as an integer.
  The code does so when \<^verbatim>\<open>int\<close> accepts the field or rejects it with \<^verbatim>\<open>ValueError\<close>
  (lemma \<open>authenticate_accepts\<close>). The handler at line 128 catches \<^verbatim>\<open>ValueError\<close> only:
  on the response \<^verbatim>\<open>{"access_token": "a2", "refresh_token": "r2", "expires_in": null}\<close>,
  \<^verbatim>\<open>int(None)\<close> raises \<^verbatim>\<open>TypeError\<close>, which no handler of \<^verbatim>\<open>authenticate\<close> catches.
  The theorem evaluates \<^verbatim>\<open>authenticate\<close> on that response, from any state and with any
  credentials: it raises instead of returning.
\<close>

theorem authenticate_null_expires_in_raises:
  "fst (authenticate usr pwd (s\<lparr>replies := \<lambda>_. signin_null_expiry\<rparr>)) = Inl TypeError"
  by (simp add: authenticate_def authenticate_try_def case_prod_unfold post_request_fst
        signin_null_expiry_def has_key_def set_expiry_null)

subsection \<open>C2: answers that carry an \<^verbatim>\<open>error\<close> field\<close>

text \<open>
  Claim C2, as amended. For every response that is a mapping with an \<^verbatim>\<open>error\<close> field,
  \<^verbatim>\<open>authenticate\<close> returns failure without raising. On such a refresh response,
  \<^verbatim>\<open>refresh_access_token\<close> returns failure without raising when it holds no refresh token
  or no non-empty username and password; when it holds all three, its outcome is the outcome
  of the one call \<^verbatim>\<open>authenticate(username, password)\<close> it makes after the refresh request
  and two log lines, which is failure without raising again when the sign-in response also
  carries an \<^verbatim>\<open>error\<close> field.
\<close>

theorem error_field_responses:
  assumes "replies s (length (sent s)) = Json_Body (JDict d)" and "has_key d ''error''"
  shows "fst (authenticate usr pwd s) = Inr False \<and>
         (\<not> truthy (refresh_token s) \<or> \<not> (str_truthy (username s) \<and> str_truthy (password s))
            \<longrightarrow> fst (refresh_access_token s) = Inr False) \<and>
         (truthy (refresh_token s) \<and> str_truthy (username s) \<and> str_truthy (password s)
            \<longrightarrow> refresh_access_token s =
                  authenticate (the (username s)) (the (password s))
                    (logger WARNING ''Trying to re-authenticate.''
                      (logger ERROR ''Refresh token error: %s''
                        (snd (post_request ''userapi/users/refresh''
                               (JDict [(''refresh_token'', refresh_token s)]) s))))) \<and>
         (replies s (Suc (length (sent s))) = Json_Body (JDict d') \<and> has_key d' ''error''
            \<longrightarrow> fst (refresh_access_token s) = Inr False)"
proof (intro conjI impI)
  show "fst (authenticate usr pwd s) = Inr False"
    using assms by (rule authenticate_error_field)
next
  assume "\<not> truthy (refresh_token s) \<or> \<not> (str_truthy (username s) \<and> str_truthy (password s))"
  then show "fst (refresh_access_token s) = Inr False"
  proof (cases "truthy (refresh_token s)")
    case False
    then show ?thesis by (simp add: refresh_no_token)
  next
    case True
    assume "\<not> truthy (refresh_token s) \<or> \<not> (str_truthy (username s) \<and> str_truthy (password s))"
    with True have "\<not> (str_truthy (username s) \<and> str_truthy (password s))" by simp
    then show ?thesis by (auto simp: refresh_error_field[OF assms True])
  qed
next
  assume "truthy (refresh_token s) \<and> str_truthy (username s) \<and> str_truthy (password s)"
  then show "refresh_access_token s =
      authenticate (the (username s)) (the (password s))
        (logger WARNING ''Trying to re-authenticate.''
          (logger ERROR ''Refresh token error: %s''
            (snd (post_request ''userapi/users/refresh''
                   (JDict [(''refresh_token'', refresh_token s)]) s))))"
    using refresh_error_field[OF assms] by simp
next
  assume 2: "replies s (Suc (length (sent s))) = Json_Body (JDict d') \<and> has_key d' ''error''"
  show "fst (refresh_access_token s) = Inr False"
  proof (cases "truthy (refresh_token s)")
    case False
    then show ?thesis by (simp add: refresh_no_token)
  next
    case True
    show ?thesis
      using refresh_error_field[OF assms True] 2
      by (simp add: authenticate_error_field)
  qed
qed

theorem error_field_responses_witness:
  "replies (expired_client (script [refresh_rejected, signin_rejected] Transport_Failure)) 0
     = Json_Body (JDict [(''error'', JStr ''invalid_grant'')]) \<and>
   fst (authenticate ''user'' ''secret''
          (expired_client (script [refresh_rejected, signin_rejected] Transport_Failure)))
     = Inr False \<and>
   fst (refresh_access_token
          (expired_client (script [refresh_rejected, signin_rejected] Transport_Failure)))
     = Inr False"
proof -
  let ?s = "expired_client (script [refresh_rejected, signin_rejected] Transport_Failure)"
  have r0: "replies ?s (length (sent ?s)) = Json_Body (JDict [(''error'', JStr ''invalid_grant'')])"
    by (simp add: example_defs)
  have e: "has_key [(''error'', JStr ''invalid_grant'')] ''error''" by (simp add: has_key_def)
  have r1: "replies ?s (Suc (length (sent ?s))) = Json_Body (JDict [(''error'', JStr ''invalid_client'')])
              \<and> has_key [(''error'', JStr ''invalid_client'')] ''error''"
    by (simp add: example_defs has_key_def)
  note th = error_field_responses[OF r0 e, of "''user''" "''secret''"
              "[(''error'', JStr ''invalid_client'')]"]
  have a: "fst (authenticate ''user'' ''secret'' ?s) = Inr False"
    by (rule th[THEN conjunct1])
  have b: "fst (refresh_access_token ?s) = Inr False"
    by (rule th[THEN conjunct2, THEN conjunct2, THEN conjunct2, THEN mp, OF r1])
  from r0 a b show ?thesis by (simp add: example_defs)
qed

text \<open>
  Claim C2 as it was stated fails where the fallback runs: the refresh is answered with
  \<^verbatim>\<open>{"error": "invalid_grant"}\<close>, the client re-authenticates with its stored credentials,
  the sign-in is accepted, and \<^verbatim>\<open>refresh_access_token\<close> returns success.
\<close>

theorem refresh_error_response_can_succeed:
  "replies (expired_client (script [refresh_rejected, signin_accepted] Transport_Failure)) 0
     = Json_Body (JDict [(''error'', JStr ''invalid_grant'')]) \<and>
   fst (refresh_access_token
          (expired_client (script [refresh_rejected, signin_accepted] Transport_Failure)))
     = Inr True"
proof -
  let ?s = "expired_client (script [refresh_rejected, signin_accepted] Transport_Failure)"
  have r0: "replies ?s (length (sent ?s)) = Json_Body (JDict [(''error'', JStr ''invalid_grant'')])"
    by (simp add: example_defs)
  have e: "has_key [(''error'', JStr ''invalid_grant'')] ''error''" by (simp add: has_key_def)
  have t: "truthy (refresh_token ?s)" by (simp add: example_defs)
  have "fst (refresh_access_token ?s) = Inr True"
    unfolding refresh_error_field[OF r0 e t]
    apply (simp add: example_defs)
    apply (rule authenticate_accepts(1)[where d = "[(''access_token'', JStr ''a2''), (''refresh_token'', JStr ''r2'')]" and n = 3600 and f = "Fin 3600"])
    apply (simp_all add: has_key_def expires_in_absent float_of_int_small signin_accepted_def)
    done
  then show ?thesis using r0 by (simp add: example_defs)
qed

subsection \<open>C3: when \<^verbatim>\<open>maybe_refresh_token\<close> uses the network\<close>

text \<open>
  Claim C3, as amended. \<^verbatim>\<open>maybe_refresh_token\<close> (the spec's \<^verbatim>\<open>ensure_valid\<close>) issues no
  network call and returns success when an access token is held and \<^verbatim>\<open>now < expires_at\<close>.
  With no access token it fails without network activity. With an access token and
  \<^verbatim>\<open>now >= expires_at\<close> it delegates to \<^verbatim>\<open>refresh_access_token\<close>, which issues the
  refresh request as its first request exactly when a refresh token is held, and fails
  without network activity when none is.
\<close>

theorem ensure_valid_network_use:
  "(truthy (access_token s) \<and> float_lt (clock s (ticks s)) (token_expires_at s) \<longrightarrow>
      fst (maybe_refresh_token s) = Inr True \<and> sent (snd (maybe_refresh_token s)) = sent s) \<and>
   (\<not> truthy (access_token s) \<longrightarrow>
      fst (maybe_refresh_token s) = Inr False \<and> sent (snd (maybe_refresh_token s)) = sent s) \<and>
   (truthy (access_token s) \<and> float_ge (clock s (ticks s)) (token_expires_at s) \<longrightarrow>
      maybe_refresh_token s =
        refresh_access_token
          (logger DEBUG ''Token expired or expiring soon, refreshing.''
             (s\<lparr>ticks := Suc (ticks s)\<rparr>))) \<and>
   (truthy (access_token s) \<and> float_ge (clock s (ticks s)) (token_expires_at s) \<and>
    truthy (refresh_token s) \<longrightarrow>
      take (Suc (length (sent s))) (sent (snd (maybe_refresh_token s)))
        = sent s @ [refresh_request s]) \<and>
   (truthy (access_token s) \<and> float_ge (clock s (ticks s)) (token_expires_at s) \<and>
    \<not> truthy (refresh_token s) \<longrightarrow>
      fst (maybe_refresh_token s) = Inr False \<and> sent (snd (maybe_refresh_token s)) = sent s)"
proof (intro conjI impI; (elim conjE)?)
  assume "truthy (access_token s)" "float_lt (clock s (ticks s)) (token_expires_at s)"
  then have v: "maybe_refresh_token s = (Inr True, s\<lparr>ticks := Suc (ticks s)\<rparr>)"
    by (simp add: maybe_refresh_valid float_lt_not_ge)
  show "fst (maybe_refresh_token s) = Inr True" by (simp add: v)
  show "sent (snd (maybe_refresh_token s)) = sent s" by (simp add: v)
next
  assume n: "\<not> truthy (access_token s)"
  show "fst (maybe_refresh_token s) = Inr False" by (simp add: maybe_refresh_no_token[OF n])
  show "sent (snd (maybe_refresh_token s)) = sent s" by (simp add: maybe_refresh_no_token[OF n])
next
  assume "truthy (access_token s)" "float_ge (clock s (ticks s)) (token_expires_at s)"
  then show "maybe_refresh_token s =
      refresh_access_token
        (logger DEBUG ''Token expired or expiring soon, refreshing.''
           (s\<lparr>ticks := Suc (ticks s)\<rparr>))"
    by (rule maybe_refresh_expired)
next
  assume a: "truthy (access_token s)" "float_ge (clock s (ticks s)) (token_expires_at s)"
     and r: "truthy (refresh_token s)"
  let ?s1 = "logger DEBUG ''Token expired or expiring soon, refreshing.'' (s\<lparr>ticks := Suc (ticks s)\<rparr>)"
  have "truthy (refresh_token ?s1)" using r by simp
  from refresh_sent_take[OF this]
  show "take (Suc (length (sent s))) (sent (snd (maybe_refresh_token s)))
          = sent s @ [refresh_request s]"
    by (simp add: maybe_refresh_expired[OF a] refresh_request_def get_auth_header_def)
next
  assume a: "truthy (access_token s)" "float_ge (clock s (ticks s)) (token_expires_at s)"
     and r: "\<not> truthy (refresh_token s)"
  show "fst (maybe_refresh_token s) = Inr False"
    using r by (simp add: maybe_refresh_expired[OF a] refresh_no_token)
  show "sent (snd (maybe_refresh_token s)) = sent s"
    using r by (simp add: maybe_refresh_expired[OF a] refresh_no_token)
qed

theorem ensure_valid_network_use_witness:
  "truthy (access_token ((expired_client (script [] Transport_Failure))
                            \<lparr>token_expires_at := Fin 200\<rparr>)) \<and>
   float_lt (Fin 100) (Fin 200) \<and>
   fst (maybe_refresh_token ((expired_client (script [] Transport_Failure))
                               \<lparr>token_expires_at := Fin 200\<rparr>)) = Inr True \<and>
   sent (snd (maybe_refresh_token ((expired_client (script [] Transport_Failure))
                                     \<lparr>token_expires_at := Fin 200\<rparr>))) = [] \<and>
   take 1 (sent (snd (maybe_refresh_token (expired_client (script [] Transport_Failure)))))
     = [refresh_request (expired_client (script [] Transport_Failure))]"
proof -
  let ?v = "(expired_client (script [] Transport_Failure))\<lparr>token_expires_at := Fin 200\<rparr>"
  let ?x = "expired_client (script [] Transport_Failure)"
  have hv: "truthy (access_token ?v) \<and> float_lt (clock ?v (ticks ?v)) (token_expires_at ?v)"
    by (simp add: example_defs)
  have hx: "truthy (access_token ?x) \<and> float_ge (clock ?x (ticks ?x)) (token_expires_at ?x) \<and>
            truthy (refresh_token ?x)"
    by (simp add: example_defs)
  have v: "fst (maybe_refresh_token ?v) = Inr True \<and> sent (snd (maybe_refresh_token ?v)) = sent ?v"
    by (rule ensure_valid_network_use[of ?v, THEN conjunct1, THEN mp, OF hv])
  have x: "take (Suc (length (sent ?x))) (sent (snd (maybe_refresh_token ?x)))
             = sent ?x @ [refresh_request ?x]"
    by (rule ensure_valid_network_use[of ?x, THEN conjunct2, THEN conjunct2, THEN conjunct2,
              THEN conjunct1, THEN mp, OF hx])
  have s0: "sent ?v = []" "sent ?x = []" by (simp_all add: example_defs)
  from hv v x show ?thesis unfolding s0 by (simp add: example_defs)
qed

text \<open>
  Claim C3 as it was stated has every state other than the valid one issue a network call,
  the never-authenticated state apart. A client that holds an access token past its deadline
  and no refresh token is neither, and \<^verbatim>\<open>refresh_access_token\<close> turns it away at line 143
  before any request.
\<close>

theorem ensure_valid_silent_failure_with_token:
  "truthy (access_token (no_refresh_client (script [] Transport_Failure))) \<and>
   float_ge (clock (no_refresh_client (script [] Transport_Failure))
                   (ticks (no_refresh_client (script [] Transport_Failure))))
            (token_expires_at (no_refresh_client (script [] Transport_Failure))) \<and>
   fst (maybe_refresh_token (no_refresh_client (script [] Transport_Failure))) = Inr False \<and>
   sent (snd (maybe_refresh_token (no_refresh_client (script [] Transport_Failure))))
     = sent (no_refresh_client (script [] Transport_Failure))"
proof -
  let ?s = "no_refresh_client (script [] Transport_Failure)"
  have a: "truthy (access_token ?s)" "float_ge (clock ?s (ticks ?s)) (token_expires_at ?s)"
    by (simp_all add: example_defs)
  have r: "\<not> truthy (refresh_token ?s)" by (simp add: example_defs)
  show ?thesis
    using a r by (simp add: maybe_refresh_expired[OF a] refresh_no_token)
qed

text \<open>
  Such a state arises through the public operations alone: a sign-in answered with an access
  token and \<^verbatim>\<open>"refresh_token": null\<close> succeeds, and once the deadline has passed the token
  check fails without a request.
\<close>

lemma silent_failure_reachable:
  "fst (authenticate ''user'' ''secret'' signs_in_without_refresh_token) = Inr True \<and>
   fst (maybe_refresh_token (snd (authenticate ''user'' ''secret'' signs_in_without_refresh_token)))
     = Inr False \<and>
   sent (snd (maybe_refresh_token
                (snd (authenticate ''user'' ''secret'' signs_in_without_refresh_token))))
     = sent (snd (authenticate ''user'' ''secret'' signs_in_without_refresh_token))"
proof -
  let ?d = "[(''access_token'', JStr ''a1''), (''refresh_token'', JNull)]"
  let ?s = "signs_in_without_refresh_token"
  let ?s1 = "snd (authenticate ''user'' ''secret'' ?s)"
  have r: "replies ?s (length (sent ?s)) = Json_Body (JDict ?d)"
    by (simp add: signs_in_without_refresh_token_def init_def)
  have k: "\<not> has_key ?d ''error''" "has_key ?d ''access_token''" "has_key ?d ''refresh_token''"
    by (simp_all add: has_key_def)
  have x: "expires_in ?d = Some 3600" by (simp add: expires_in_absent)
  have f: "float_of_int 3600 = Inr (Fin 3600)" by (simp add: float_of_int_small)
  note a = authenticate_accepts[OF r k x f, of "''user''" "''secret''"]
  have at: "truthy (access_token ?s1)" by (simp add: a(2) dict_get_def)
  have rt: "\<not> truthy (refresh_token ?s1)" by (simp add: a(3) dict_get_def)
  have ex: "token_expires_at ?s1 = Fin 3670"
    unfolding a(6)
    by (simp add: signs_in_without_refresh_token_def init_def later_clock_def float_sub_def
          binary64_numeral)
  have now: "clock ?s1 (ticks ?s1) = Fin 10000"
    unfolding authenticate_accepts_ticks[OF r k x f] authenticate_env
    by (simp add: signs_in_without_refresh_token_def init_def later_clock_def)
  have ge: "float_ge (clock ?s1 (ticks ?s1)) (token_expires_at ?s1)" unfolding now ex by simp
  show ?thesis
    using rt by (simp add: a(1) maybe_refresh_expired[OF at ge] refresh_no_token)
qed

subsection \<open>C4: re-authentication after a failed refresh\<close>

text \<open>
  Claim C4, as amended. In a client state that holds a refresh token and a non-empty username
  and password, a refresh answered by a mapping with an \<^verbatim>\<open>error\<close> field is followed by
  exactly one sign-in request, carrying those same credentials: the requests issued are the
  refresh request and that sign-in request, nothing more. A refresh that fails because the
  transport fails or the HTTP status is an error issues the refresh request only, and one
  that fails for want of a refresh token issues no request: neither re-authenticates.
\<close>

theorem failed_refresh_reauthentication:
  "(truthy (refresh_token s) \<and> str_truthy (username s) \<and> str_truthy (password s) \<and>
    replies s (length (sent s)) = Json_Body (JDict d) \<and> has_key d ''error'' \<longrightarrow>
      sent (snd (refresh_access_token s)) =
        sent s @ [refresh_request s, signin_request (the (username s)) (the (password s)) s]) \<and>
   (truthy (refresh_token s) \<and>
    (replies s (length (sent s)) = Transport_Failure \<or>
     replies s (length (sent s)) = Bad_Status code) \<longrightarrow>
      fst (refresh_access_token s) = Inr False \<and>
      sent (snd (refresh_access_token s)) = sent s @ [refresh_request s]) \<and>
   (\<not> truthy (refresh_token s) \<longrightarrow>
      fst (refresh_access_token s) = Inr False \<and> sent (snd (refresh_access_token s)) = sent s)"
proof (intro conjI impI; (elim conjE)?)
  assume "truthy (refresh_token s)" "str_truthy (username s)" "str_truthy (password s)"
         "replies s (length (sent s)) = Json_Body (JDict d)" "has_key d ''error''"
  then show "sent (snd (refresh_access_token s)) =
        sent s @ [refresh_request s, signin_request (the (username s)) (the (password s)) s]"
    by (simp add: refresh_error_field_sent)
next
  assume a: "truthy (refresh_token s)"
    "replies s (length (sent s)) = Transport_Failure \<or> replies s (length (sent s)) = Bad_Status code"
  show "fst (refresh_access_token s) = Inr False" by (rule refresh_transport(1)[OF a])
  show "sent (snd (refresh_access_token s)) = sent s @ [refresh_request s]"
    by (rule refresh_transport(2)[OF a])
next
  assume n: "\<not> truthy (refresh_token s)"
  show "fst (refresh_access_token s) = Inr False" by (simp add: refresh_no_token[OF n])
  show "sent (snd (refresh_access_token s)) = sent s" by (simp add: refresh_no_token[OF n])
qed

theorem failed_refresh_reauthentication_witness:
  "replies (expired_client (script [refresh_rejected, signin_rejected] Transport_Failure)) 0
     = Json_Body (JDict [(''error'', JStr ''invalid_grant'')]) \<and>
   sent (snd (refresh_access_token
                (expired_client (script [refresh_rejected, signin_rejected] Transport_Failure))))
     = [\<lparr>meth = POST,
         url = ''https://hlkc-api-management.azure-api.net/userapi/users/refresh'',
         body = Some (JDict [(''refresh_token'', JStr ''r1'')]),
         bearer = Some (JStr ''stale'')\<rparr>,
        \<lparr>meth = POST,
         url = ''https://hlkc-api-management.azure-api.net/userapi/users/signin'',
         body = Some (JDict [(''username'', JStr ''user''), (''password'', JStr ''secret'')]),
         bearer = Some (JStr ''stale'')\<rparr>]"
proof -
  let ?s = "expired_client (script [refresh_rejected, signin_rejected] Transport_Failure)"
  have h: "truthy (refresh_token ?s) \<and> str_truthy (username ?s) \<and> str_truthy (password ?s) \<and>
           replies ?s (length (sent ?s)) = Json_Body (JDict [(''error'', JStr ''invalid_grant'')]) \<and>
           has_key [(''error'', JStr ''invalid_grant'')] ''error''"
    by (simp add: example_defs has_key_def)
  have "sent (snd (refresh_access_token ?s)) =
          sent ?s @ [refresh_request ?s, signin_request (the (username ?s)) (the (password ?s)) ?s]"
    by (rule failed_refresh_reauthentication[of ?s "[(''error'', JStr ''invalid_grant'')]" 0,
              THEN conjunct1, THEN mp, OF h])
  moreover have "sent ?s = []" "refresh_request ?s = \<lparr>meth = POST,
         url = ''https://hlkc-api-management.azure-api.net/userapi/users/refresh'',
         body = Some (JDict [(''refresh_token'', JStr ''r1'')]),
         bearer = Some (JStr ''stale'')\<rparr>"
     "signin_request (the (username ?s)) (the (password ?s)) ?s = \<lparr>meth = POST,
         url = ''https://hlkc-api-management.azure-api.net/userapi/users/signin'',
         body = Some (JDict [(''username'', JStr ''user''), (''password'', JStr ''secret'')]),
         bearer = Some (JStr ''stale'')\<rparr>"
    by (simp_all add: example_defs refresh_request_def signin_request_def get_auth_header_def)
  moreover have "replies ?s 0 = Json_Body (JDict [(''error'', JStr ''invalid_grant'')])"
    by (simp add: example_defs)
  ultimately show ?thesis by simp
qed

text \<open>
  Claim C4 as it was stated has every failed refresh, whatever the failure, re-authenticate.
  The fallback sits in the branch for an \<^verbatim>\<open>error\<close> field (lines 152--163); a transport
  error goes to the handler at line 178, which logs and returns failure. Here the client has
  its credentials, the refresh request meets a transport failure, and no sign-in follows.
\<close>

theorem transport_failure_no_reauthentication:
  "str_truthy (username (expired_client (script [] Transport_Failure))) \<and>
   str_truthy (password (expired_client (script [] Transport_Failure))) \<and>
   fst (refresh_access_token (expired_client (script [] Transport_Failure))) = Inr False \<and>
   sent (snd (refresh_access_token (expired_client (script [] Transport_Failure))))
     = [\<lparr>meth = POST,
         url = ''https://hlkc-api-management.azure-api.net/userapi/users/refresh'',
         body = Some (JDict [(''refresh_token'', JStr ''r1'')]),
         bearer = Some (JStr ''stale'')\<rparr>]"
proof -
  let ?s = "expired_client (script [] Transport_Failure)"
  have a: "truthy (refresh_token ?s)"
    "replies ?s (length (sent ?s)) = Transport_Failure \<or> replies ?s (length (sent ?s)) = Bad_Status 0"
    by (simp_all add: example_defs)
  have "sent ?s = []" "refresh_request ?s = \<lparr>meth = POST,
         url = ''https://hlkc-api-management.azure-api.net/userapi/users/refresh'',
         body = Some (JDict [(''refresh_token'', JStr ''r1'')]),
         bearer = Some (JStr ''stale'')\<rparr>"
     "str_truthy (username ?s)" "str_truthy (password ?s)"
    by (simp_all add: example_defs refresh_request_def get_auth_header_def)
  then show ?thesis using refresh_transport[OF a] by simp
qed

subsection \<open>C5: \<^verbatim>\<open>is_on\<close>\<close>

text \<open>
  What the code does whenever a snapshot is returned. In the snapshot returned by
  \<^verbatim>\<open>get_latest_datapoints\<close>, \<^verbatim>\<open>is_on\<close> is set by the entries named \<^verbatim>\<open>"Area OnOff"\<close> and by
  no other: it is absent when there is none, and otherwise it is the value set by the last of
  them, which is true if and only if \<^verbatim>\<open>float\<close> of that entry's \<^verbatim>\<open>value\<close> is exactly 1.0. The
  same holds entry by entry in the loop, for every entry that lets the loop go on: that is
  whenever \<^verbatim>\<open>float\<close> returns or raises \<^verbatim>\<open>ValueError\<close>, as it does on every string, and for an
  absent or null value. This lemma says nothing of a value on which \<^verbatim>\<open>float\<close> raises
  \<^verbatim>\<open>TypeError\<close> or \<^verbatim>\<open>OverflowError\<close>; the theorem of claim C5 below evaluates such a value.
\<close>

lemma is_on_when_snapshot_returned:
  assumes "maybe_refresh_token s = (Inr b, s1)"
      and "replies s1 (length (sent s1)) = Json_Body (JList dps)"
      and "fst (get_latest_datapoints uid s) = Inr snap"
  shows "snap ''is_on'' =
           (case find (named ''Area OnOff'') (rev dps) of
              None \<Rightarrow> None
            | Some dp \<Rightarrow> Some (Flag (py_float (value_of dp) = Inr (Fin 1)))) \<and>
         (\<forall>dp parsed parsed'.
            named ''Area OnOff'' dp \<and> parse_datapoint parsed dp = Inr parsed' \<longrightarrow>
              parsed' = parsed(''is_on'' \<mapsto> Flag (py_float (value_of dp) = Inr (Fin 1)))) \<and>
         (\<forall>dp parsed.
            is_dict dp \<and> named ''Area OnOff'' dp \<and> py_float (value_of dp) \<noteq> Inl OverflowError \<and>
            (value_of dp = JNull \<or> py_float (value_of dp) \<noteq> Inl TypeError) \<longrightarrow>
              parse_datapoint parsed dp =
                Inr (parsed(''is_on'' \<mapsto> Flag (py_float (value_of dp) = Inr (Fin 1)))))"
proof (intro conjI allI impI)
  have "parse_datapoints Map.empty dps = Inr snap"
    using get_latest_datapoints_list[OF assms(1,2)] assms(3) by simp
  from parse_datapoints_is_on[OF this]
  show "snap ''is_on'' =
           (case find (named ''Area OnOff'') (rev dps) of
              None \<Rightarrow> None
            | Some dp \<Rightarrow> Some (Flag (py_float (value_of dp) = Inr (Fin 1))))"
    by simp
next
  fix dp parsed parsed'
  assume "named ''Area OnOff'' dp \<and> parse_datapoint parsed dp = Inr parsed'"
  then show "parsed' = parsed(''is_on'' \<mapsto> Flag (py_float (value_of dp) = Inr (Fin 1)))"
    using parse_datapoint_on_off by blast
next
  fix dp parsed
  assume a: "is_dict dp \<and> named ''Area OnOff'' dp \<and> py_float (value_of dp) \<noteq> Inl OverflowError \<and>
            (value_of dp = JNull \<or> py_float (value_of dp) \<noteq> Inl TypeError)"
  then have "\<exists>nv. numeric_val (items dp) = Inr nv"
    unfolding numeric_val_returns by (simp add: value_of_def)
  then obtain nv where nv: "numeric_val (items dp) = Inr nv" ..
  then have "\<exists>p. parse_datapoint parsed dp = Inr p"
    using a by (simp add: parse_datapoint_def Let_def)
  then obtain p where p: "parse_datapoint parsed dp = Inr p" ..
  show "parse_datapoint parsed dp =
                Inr (parsed(''is_on'' \<mapsto> Flag (py_float (value_of dp) = Inr (Fin 1))))"
    using parse_datapoint_on_off[OF p] a p by simp
qed

lemma is_on_when_snapshot_returned_example:
  "fst (get_latest_datapoints ''A1''
          (valid_client (script [Json_Body (JList [datapoint ''Area OnOff'' (JStr ''0''),
                                                   datapoint ''Area OnOff'' (JStr ''1'')])]
                           Transport_Failure)))
     = Inr [''is_on'' \<mapsto> Flag True] \<and>
   py_float (value_of (datapoint ''Area OnOff'' (JStr ''1''))) = Inr (Fin 1) \<and>
   parse_datapoint Map.empty (datapoint ''Area OnOff'' (JStr ''abc''))
     = Inr [''is_on'' \<mapsto> Flag False]"
proof -
  let ?dps = "[datapoint ''Area OnOff'' (JStr ''0''), datapoint ''Area OnOff'' (JStr ''1'')]"
  let ?s = "valid_client (script [Json_Body (JList ?dps)] Transport_Failure)"
  let ?s1 = "?s\<lparr>ticks := Suc (ticks ?s)\<rparr>"
  have m: "maybe_refresh_token ?s = (Inr True, ?s1)" by (rule valid_client_token)
  have r: "replies ?s1 (length (sent ?s1)) = Json_Body (JList ?dps)"
    by (simp add: example_defs)
  have g: "fst (get_latest_datapoints ''A1'' ?s) = Inr [''is_on'' \<mapsto> Flag True]"
    unfolding get_latest_datapoints_list[OF m r]
    by (simp add: parse_datapoint_def numeric_val_def
          datapoint_def dict_get_def float_of_string_1 float_of_string_0)
  note th = is_on_when_snapshot_returned[OF m r g]
  have one: "py_float (value_of (datapoint ''Area OnOff'' (JStr ''1''))) = Inr (Fin 1)"
    using th[THEN conjunct1] by (simp add: named_def datapoint_def dict_get_def)
  have h: "is_dict (datapoint ''Area OnOff'' (JStr ''abc'')) \<and>
           named ''Area OnOff'' (datapoint ''Area OnOff'' (JStr ''abc'')) \<and>
           py_float (value_of (datapoint ''Area OnOff'' (JStr ''abc''))) \<noteq> Inl OverflowError \<and>
           (value_of (datapoint ''Area OnOff'' (JStr ''abc'')) = JNull \<or>
            py_float (value_of (datapoint ''Area OnOff'' (JStr ''abc''))) \<noteq> Inl TypeError)"
    by (simp add: named_def value_of_def datapoint_def dict_get_def float_of_string_abc)
  have abc: "parse_datapoint Map.empty (datapoint ''Area OnOff'' (JStr ''abc''))
               = Inr [''is_on'' \<mapsto> Flag False]"
    using th[THEN conjunct2, THEN conjunct2, THEN spec, THEN spec, THEN mp, OF h]
    by (simp add: value_of_def datapoint_def dict_get_def float_of_string_abc)
  from g one abc show ?thesis by simp
qed

text \<open>
  Claim C5. In the snapshot, \<^verbatim>\<open>is_on\<close> is true if and only if the \<^verbatim>\<open>"Area OnOff"\<close> datapoint's
  value parses to exactly 1.0; any other or unparsable value gives false. The code departs from
  this on a value that \<^verbatim>\<open>float\<close> cannot parse and that is not a string: for the entry
  \<^verbatim>\<open>{"dataPointName": "Area OnOff", "value": []}\<close> the call \<^verbatim>\<open>float(val_str)\<close> raises
  \<^verbatim>\<open>TypeError\<close>, the handler beside it catches \<^verbatim>\<open>ValueError\<close> only, and so the entry sets
  nothing, whatever was parsed before it, and \<^verbatim>\<open>get_latest_datapoints\<close> on a response with
  that entry raises \<^verbatim>\<open>TypeError\<close> instead of returning a snapshot in which \<^verbatim>\<open>is_on\<close> is
  false.
\<close>

theorem on_off_array_value_raises:
  "parse_datapoint parsed (datapoint ''Area OnOff'' (JList [])) = Inl TypeError \<and>
   fst (get_latest_datapoints ''A1''
          (valid_client (script [Json_Body (JList [datapoint ''Area OnOff'' (JList [])])]
                           Transport_Failure)))
     = Inl TypeError"
proof -
  let ?dps = "[datapoint ''Area OnOff'' (JList [])]"
  let ?s = "valid_client (script [Json_Body (JList ?dps)] Transport_Failure)"
  let ?s1 = "?s\<lparr>ticks := Suc (ticks ?s)\<rparr>"
  have m: "maybe_refresh_token ?s = (Inr True, ?s1)" by (rule valid_client_token)
  have r: "replies ?s1 (length (sent ?s1)) = Json_Body (JList ?dps)"
    by (simp add: example_defs)
  have p: "parse_datapoint parsed (datapoint ''Area OnOff'' (JList [])) = Inl TypeError"
    by (simp add: parse_datapoint_def numeric_val_def datapoint_def dict_get_def)
  have "fst (get_latest_datapoints ''A1'' ?s) = Inl TypeError"
    unfolding get_latest_datapoints_list[OF m r]
    by (simp add: parse_datapoint_def numeric_val_def datapoint_def dict_get_def)
  with p show ?thesis by simp
qed

subsection \<open>C6: from datapoints to the snapshot\<close>

text \<open>
  The scenario of the specification: \<^verbatim>\<open>"Humidity Average"\<close> with value \<^verbatim>\<open>"45.2"\<close> and
  \<^verbatim>\<open>"Area OnOff"\<close> with value \<^verbatim>\<open>"1"\<close> give exactly \<^verbatim>\<open>humidity_avg\<close> (the float
  nearest to 45.2) and \<^verbatim>\<open>is_on = True\<close>.
\<close>

lemma scenario_snapshot:
  "fst (get_latest_datapoints ''A1''
          (valid_client (script [Json_Body (JList [datapoint ''Humidity Average'' (JStr ''45.2''),
                                                   datapoint ''Area OnOff'' (JStr ''1'')])]
                           Transport_Failure)))
     = Inr [''humidity_avg'' \<mapsto> Number (binary64 (452 / 10)), ''is_on'' \<mapsto> Flag True]"
proof -
  let ?dps = "[datapoint ''Humidity Average'' (JStr ''45.2''), datapoint ''Area OnOff'' (JStr ''1'')]"
  let ?s = "valid_client (script [Json_Body (JList ?dps)] Transport_Failure)"
  let ?s1 = "?s\<lparr>ticks := Suc (ticks ?s)\<rparr>"
  have m: "maybe_refresh_token ?s = (Inr True, ?s1)" by (rule valid_client_token)
  have r: "replies ?s1 (length (sent ?s1)) = Json_Body (JList ?dps)"
    by (simp add: example_defs)
  show ?thesis
    unfolding get_latest_datapoints_list[OF m r]
    by (simp add: parse_datapoint_def numeric_val_def
          datapoint_def dict_get_def float_of_string_1 float_of_string_45_2)
qed

text \<open>
  Claim C6 says that \<^verbatim>\<open>get_latest_datapoints\<close> maps entries to fields by exact name, skips
  numeric fields whose value is absent or not numerically parsable, ignores unrecognised
  names, returns an empty snapshot when the response is not a list, and yields
  \<^verbatim>\<open>{humidity_avg: 45.2, is_on: true}\<close> in the scenario above. The scenario holds
  (\<open>scenario_snapshot\<close>), and so does the rest on every entry whose value is absent, null, a
  string, or a number in the float range (\<open>parse_datapoint_readable\<close>). The skipping does
  not hold for every value that is not numerically parsable: line 250 catches \<^verbatim>\<open>ValueError\<close> only, so a value \<^verbatim>\<open>float\<close> rejects with
  \<^verbatim>\<open>TypeError\<close> (an array or an object) ends the whole call. The theorem evaluates
  \<^verbatim>\<open>get_latest_datapoints\<close> on the response
  \<^verbatim>\<open>[{"dataPointName": "Humidity Average", "value": []}]\<close>: it raises \<^verbatim>\<open>TypeError\<close> where
  the claim has it skip the field and return the empty snapshot.
\<close>

theorem array_value_raises:
  "fst (get_latest_datapoints ''A1''
          (valid_client (script [Json_Body (JList [datapoint ''Humidity Average'' (JList [])])]
                           Transport_Failure)))
     = Inl TypeError"
proof -
  let ?dps = "[datapoint ''Humidity Average'' (JList [])]"
  let ?s = "valid_client (script [Json_Body (JList ?dps)] Transport_Failure)"
  let ?s1 = "?s\<lparr>ticks := Suc (ticks ?s)\<rparr>"
  have m: "maybe_refresh_token ?s = (Inr True, ?s1)" by (rule valid_client_token)
  have r: "replies ?s1 (length (sent ?s1)) = Json_Body (JList ?dps)"
    by (simp add: example_defs)
  show ?thesis
    unfolding get_latest_datapoints_list[OF m r]
    by (simp add: parse_datapoint_def numeric_val_def
          datapoint_def dict_get_def)
qed

subsection \<open>C7: \<^verbatim>\<open>set_on_off\<close> and \<^verbatim>\<open>set_humidity_reference\<close>\<close>




subsection \<open>C8: \<^verbatim>\<open>get_devices\<close>\<close>

text \<open>
  Claim C8. Once its token check has returned, \<^verbatim>\<open>get_devices\<close> (the spec's
  \<^verbatim>\<open>list_devices\<close>) returns the contents of the \<^verbatim>\<open>data\<close> field when the response is a
  mapping that has one, and returns the empty list, with the warning as its last log record,
  for every response that lacks the field: a mapping without \<^verbatim>\<open>data\<close>, JSON that is not a
  mapping, or a body that is not JSON (which the request layer turns into \<^verbatim>\<open>{}\<close>). In
  particular \<^verbatim>\<open>{"data": [{"uniqueId": "A1", "instanceName": "Bath"}]}\<close> yields the
  one-element device list and \<^verbatim>\<open>{}\<close> the empty list.
\<close>

theorem get_devices_data_field:
  assumes "maybe_refresh_token s = (Inr b, s1)"
  shows "(replies s1 (length (sent s1)) = Json_Body (JDict d) \<and> map_of d ''data'' = Some v \<longrightarrow>
            fst (get_devices s) = Inr v) \<and>
         (replies s1 (length (sent s1)) = Json_Body resp \<and>
          (\<forall>d. resp = JDict d \<longrightarrow> map_of d ''data'' = None) \<longrightarrow>
            fst (get_devices s) = Inr (JList []) \<and>
            last (logged (snd (get_devices s)))
              = (WARNING, ''Unexpected get_devices response: %s'')) \<and>
         (replies s1 (length (sent s1)) = Other_Body txt \<longrightarrow>
            fst (get_devices s) = Inr (JList []) \<and>
            last (logged (snd (get_devices s)))
              = (WARNING, ''Unexpected get_devices response: %s''))"
proof (intro conjI impI; (elim conjE)?)
  assume "replies s1 (length (sent s1)) = Json_Body (JDict d)" "map_of d ''data'' = Some v"
  then show "fst (get_devices s) = Inr v"
    by (simp add: get_devices_reply[OF assms] case_prod_unfold get_request_fst has_key_def
          dict_get_def)
next
  assume r: "replies s1 (length (sent s1)) = Json_Body resp"
     and n: "\<forall>d. resp = JDict d \<longrightarrow> map_of d ''data'' = None"
  have nb: "(is_dict resp \<and> has_key (items resp) ''data'') = False"
    using n by (cases resp) (simp_all add: has_key_def)
  have g: "get_devices s =
      (Inr (JList []), logger WARNING ''Unexpected get_devices response: %s''
         (snd (get_request ''api/condair/sensor-instances?pageSize=999'' s1)))"
    using r by (simp add: get_devices_reply[OF assms] case_prod_unfold get_request_fst nb)
  show "fst (get_devices s) = Inr (JList [])" by (simp add: g)
  show "last (logged (snd (get_devices s))) = (WARNING, ''Unexpected get_devices response: %s'')"
    by (simp add: g)
next
  assume r: "replies s1 (length (sent s1)) = Other_Body txt"
  have g: "get_devices s =
      (Inr (JList []), logger WARNING ''Unexpected get_devices response: %s''
         (snd (get_request ''api/condair/sensor-instances?pageSize=999'' s1)))"
    using r by (simp add: get_devices_reply[OF assms] case_prod_unfold get_request_fst has_key_def)
  show "fst (get_devices s) = Inr (JList [])" by (simp add: g)
  show "last (logged (snd (get_devices s))) = (WARNING, ''Unexpected get_devices response: %s'')"
    by (simp add: g)
qed

theorem get_devices_data_field_witness:
  "fst (get_devices (valid_client (script
          [Json_Body (JDict [(''data'',
             JList [JDict [(''uniqueId'', JStr ''A1''), (''instanceName'', JStr ''Bath'')]])])]
          Transport_Failure)))
     = Inr (JList [JDict [(''uniqueId'', JStr ''A1''), (''instanceName'', JStr ''Bath'')]]) \<and>
   fst (get_devices (valid_client (script [Json_Body (JDict [])] Transport_Failure)))
     = Inr (JList []) \<and>
   last (logged (snd (get_devices (valid_client (script [Json_Body (JDict [])] Transport_Failure)))))
     = (WARNING, ''Unexpected get_devices response: %s'')"
proof -
  let ?devs = "JList [JDict [(''uniqueId'', JStr ''A1''), (''instanceName'', JStr ''Bath'')]]"
  let ?s = "valid_client (script [Json_Body (JDict [(''data'', ?devs)])] Transport_Failure)"
  let ?s1 = "?s\<lparr>ticks := Suc (ticks ?s)\<rparr>"
  let ?t = "valid_client (script [Json_Body (JDict [])] Transport_Failure)"
  let ?t1 = "?t\<lparr>ticks := Suc (ticks ?t)\<rparr>"
  have sm: "maybe_refresh_token ?s = (Inr True, ?s1)" by (rule valid_client_token)
  have tm: "maybe_refresh_token ?t = (Inr True, ?t1)" by (rule valid_client_token)
  have sr: "replies ?s1 (length (sent ?s1)) = Json_Body (JDict [(''data'', ?devs)]) \<and>
            map_of [(''data'', ?devs)] ''data'' = Some ?devs"
    by (simp add: example_defs)
  have tr: "replies ?t1 (length (sent ?t1)) = Json_Body (JDict []) \<and>
            (\<forall>d. JDict [] = JDict d \<longrightarrow> map_of d ''data'' = None)"
    by (simp add: example_defs)
  have a: "fst (get_devices ?s) = Inr ?devs"
    by (rule get_devices_data_field[OF sm, THEN conjunct1, THEN mp, OF sr])
  have b: "fst (get_devices ?t) = Inr (JList []) \<and>
           last (logged (snd (get_devices ?t))) = (WARNING, ''Unexpected get_devices response: %s'')"
    by (rule get_devices_data_field[OF tm, THEN conjunct2, THEN conjunct1, THEN mp, OF tr])
  from a b show ?thesis by simp
qed

subsection \<open>C9: requests after a failed token check\<close>

text \<open>
  Claim C9. In every client state in which \<^verbatim>\<open>maybe_refresh_token\<close> (the spec's
  \<^verbatim>\<open>ensure_valid\<close>) returns failure, \<^verbatim>\<open>get_devices\<close>, \<^verbatim>\<open>get_latest_datapoints\<close>,
  \<^verbatim>\<open>get_actions\<close> and \<^verbatim>\<open>invoke_action\<close> ignore that result and still dispatch their
  request: after the requests of the token check, each sends exactly its own. The failed
  check has left the access token as it was, so the request carries that token as bearer if
  one is held (the stale token) and no authorization otherwise.
\<close>

theorem requests_dispatched_after_failed_token_check:
  assumes "maybe_refresh_token s = (Inr False, s1)"
  shows "sent (snd (get_devices s)) =
           sent s1 @ [\<lparr>meth = GET,
                       url = base_url s1 @ ''/api/condair/sensor-instances?pageSize=999'',
                       body = None, bearer = get_auth_header s1\<rparr>] \<and>
         sent (snd (get_latest_datapoints uid s)) =
           sent s1 @ [\<lparr>meth = GET,
                       url = base_url s1 @ ''/api/condair/sensor-instances/'' @ uid
                               @ ''/latest-datapoint-values'',
                       body = None, bearer = get_auth_header s1\<rparr>] \<and>
         sent (snd (get_actions uid s)) =
           sent s1 @ [\<lparr>meth = GET,
                       url = base_url s1 @ ''/api/condair/sensor-instances/'' @ uid @ ''/actions'',
                       body = None, bearer = get_auth_header s1\<rparr>] \<and>
         sent (snd (invoke_action action_id uid v s)) =
           sent s1 @ [invoke_request action_id uid v s1] \<and>
         get_auth_header s1 = (if truthy (access_token s) then Some (access_token s) else None)"
proof (intro conjI)
  show "get_auth_header s1 = (if truthy (access_token s) then Some (access_token s) else None)"
    using maybe_refresh_failure_keeps_tokens[OF assms] by (simp add: get_auth_header_def)
qed (rule get_devices_sent[OF assms] get_latest_datapoints_sent[OF assms]
          get_actions_sent[OF assms] invoke_action_sent[OF assms])+

theorem requests_dispatched_after_failed_token_check_witness:
  "fst (maybe_refresh_token (init (script [] Transport_Failure) (\<lambda>_. Fin 100))) = Inr False \<and>
   sent (snd (get_devices (init (script [] Transport_Failure) (\<lambda>_. Fin 100))))
     = [\<lparr>meth = GET,
         url = ''https://hlkc-api-management.azure-api.net/api/condair/sensor-instances?pageSize=999'',
         body = None, bearer = None\<rparr>] \<and>
   fst (maybe_refresh_token (no_refresh_client (script [] Transport_Failure))) = Inr False \<and>
   sent (snd (invoke_action (JStr ''act-1'') ''A1'' ''1''
                (no_refresh_client (script [] Transport_Failure))))
     = [\<lparr>meth = POST,
         url = ''https://hlkc-api-management.azure-api.net/api/condair/invoke-action'',
         body = Some (invoke_payload (JStr ''act-1'') ''A1'' ''1''),
         bearer = Some (JStr ''stale'')\<rparr>]"
proof -
  let ?i = "init (script [] Transport_Failure) (\<lambda>_. Fin 100)"
  let ?i1 = "logger WARNING ''No access token; must authenticate first.'' ?i"
  let ?n = "no_refresh_client (script [] Transport_Failure)"
  let ?n1 = "logger ERROR ''No refresh token available.''
              (logger DEBUG ''Token expired or expiring soon, refreshing.''
                 (?n\<lparr>ticks := Suc (ticks ?n)\<rparr>))"
  have im: "maybe_refresh_token ?i = (Inr False, ?i1)"
    by (rule maybe_refresh_no_token) (simp add: example_defs)
  have nm: "maybe_refresh_token ?n = (Inr False, ?n1)"
    by (simp add: maybe_refresh_token_def time_time_def refresh_no_token example_defs)
  note a = requests_dispatched_after_failed_token_check[OF im, THEN conjunct1]
  note b = requests_dispatched_after_failed_token_check[OF nm, THEN conjunct2, THEN conjunct2,
              THEN conjunct2, THEN conjunct1, of "JStr ''act-1''" "''A1''" "''1''"]
  show ?thesis
    unfolding a b im nm
    by (simp add: example_defs get_auth_header_def invoke_request_def)
qed

subsection \<open>C10: a refresh answer without tokens\<close>

text \<open>
  Claim C10, as amended. For every refresh response that is a mapping without an \<^verbatim>\<open>error\<close>
  field and whose \<^verbatim>\<open>expires_in\<close> the code reads (it is absent, or \<^verbatim>\<open>int\<close> accepts it or
  rejects it with \<^verbatim>\<open>ValueError\<close>, and the number of seconds is within the float range),
  \<^verbatim>\<open>refresh_access_token\<close> returns success even when \<^verbatim>\<open>access_token\<close> or
  \<^verbatim>\<open>refresh_token\<close> is missing from the response, and overwrites each stored token with
  the response's field, \<^verbatim>\<open>None\<close> for a missing one; \<^verbatim>\<open>authenticate\<close> returns failure on
  a response that misses either. When \<^verbatim>\<open>access_token\<close> is the missing one, the next
  \<^verbatim>\<open>maybe_refresh_token\<close> fails with no access token held, without a request.
\<close>

theorem refresh_without_tokens:
  assumes "truthy (refresh_token s)"
      and "replies s (length (sent s)) = Json_Body (JDict d)" and "\<not> has_key d ''error''"
      and "expires_in d = Some n" and "float_of_int n = Inr f"
  shows "fst (refresh_access_token s) = Inr True \<and>
         access_token (snd (refresh_access_token s)) = dict_get d ''access_token'' JNull \<and>
         refresh_token (snd (refresh_access_token s)) = dict_get d ''refresh_token'' JNull \<and>
         (\<not> has_key d ''access_token'' \<longrightarrow>
            access_token (snd (refresh_access_token s)) = JNull \<and>
            fst (maybe_refresh_token (snd (refresh_access_token s))) = Inr False \<and>
            sent (snd (maybe_refresh_token (snd (refresh_access_token s))))
              = sent (snd (refresh_access_token s))) \<and>
         (\<not> has_key d ''refresh_token'' \<longrightarrow>
            refresh_token (snd (refresh_access_token s)) = JNull) \<and>
         (\<not> (has_key d ''access_token'' \<and> has_key d ''refresh_token'') \<longrightarrow>
            fst (authenticate usr pwd s) = Inr False)"
proof (intro conjI impI)
  note r = refresh_accepts[OF assms]
  show "fst (refresh_access_token s) = Inr True" by (rule r(1))
  show "access_token (snd (refresh_access_token s)) = dict_get d ''access_token'' JNull"
    by (rule r(2))
  show "refresh_token (snd (refresh_access_token s)) = dict_get d ''refresh_token'' JNull"
    by (rule r(3))
  {
    assume a: "\<not> has_key d ''access_token''"
    then show n: "access_token (snd (refresh_access_token s)) = JNull"
      by (simp add: r(2) dict_get_absent)
    then have "\<not> truthy (access_token (snd (refresh_access_token s)))" by simp
    note m = maybe_refresh_no_token[OF this]
    show "fst (maybe_refresh_token (snd (refresh_access_token s))) = Inr False"
      by (simp add: m)
    show "sent (snd (maybe_refresh_token (snd (refresh_access_token s))))
            = sent (snd (refresh_access_token s))"
      by (simp add: m)
  }
  {
    assume "\<not> has_key d ''refresh_token''"
    then show "refresh_token (snd (refresh_access_token s)) = JNull"
      by (simp add: r(3) dict_get_absent)
  }
  {
    assume "\<not> (has_key d ''access_token'' \<and> has_key d ''refresh_token'')"
    then show "fst (authenticate usr pwd s) = Inr False"
      by (rule authenticate_missing_token[OF assms(2)])
  }
qed

theorem refresh_without_tokens_witness:
  "replies (expired_client (script [Json_Body (JDict [])] Transport_Failure)) 0
     = Json_Body (JDict []) \<and>
   expires_in [] = Some 3600 \<and>
   fst (refresh_access_token (expired_client (script [Json_Body (JDict [])] Transport_Failure)))
     = Inr True \<and>
   access_token (snd (refresh_access_token
                        (expired_client (script [Json_Body (JDict [])] Transport_Failure))))
     = JNull \<and>
   fst (maybe_refresh_token
          (snd (refresh_access_token
                  (expired_client (script [Json_Body (JDict [])] Transport_Failure)))))
     = Inr False \<and>
   fst (authenticate ''user'' ''secret''
          (expired_client (script [Json_Body (JDict [])] Transport_Failure)))
     = Inr False"
proof -
  let ?s = "expired_client (script [Json_Body (JDict [])] Transport_Failure)"
  have t: "truthy (refresh_token ?s)" by (simp add: example_defs)
  have r: "replies ?s (length (sent ?s)) = Json_Body (JDict [])" by (simp add: example_defs)
  have e: "\<not> has_key [] ''error''" by (simp add: has_key_def)
  have x: "expires_in [] = Some 3600" by (simp add: expires_in_absent)
  have f: "float_of_int 3600 = Inr (Fin 3600)" by (simp add: float_of_int_small)
  note th = refresh_without_tokens[OF t r e x f, of "''user''" "''secret''"]
  have na: "\<not> has_key [] ''access_token''" by (simp add: has_key_def)
  have nb: "\<not> (has_key [] ''access_token'' \<and> has_key [] ''refresh_token'')"
    by (simp add: has_key_def)
  note a = th[THEN conjunct1]
  note b = th[THEN conjunct2, THEN conjunct2, THEN conjunct2, THEN conjunct1, THEN mp, OF na]
  note c = th[THEN conjunct2, THEN conjunct2, THEN conjunct2, THEN conjunct2, THEN conjunct2,
              THEN mp, OF nb]
  from r x a b c show ?thesis by (simp add: example_defs)
qed

text \<open>
  Claim C10 as it was stated has a later \<^verbatim>\<open>ensure_valid\<close> fail with no access token held
  whenever \<^verbatim>\<open>access_token\<close> or \<^verbatim>\<open>refresh_token\<close> is missing. When only
  \<^verbatim>\<open>refresh_token\<close> is missing, as in the response \<^verbatim>\<open>{"access_token": "a2"}\<close>, the
  refresh succeeds, the stored refresh token becomes \<^verbatim>\<open>None\<close>, the new access token is
  held, and the next \<^verbatim>\<open>maybe_refresh_token\<close> succeeds.
\<close>

theorem refresh_without_refresh_token_stays_valid:
  "replies (expired_client (script [Json_Body (JDict [(''access_token'', JStr ''a2'')])]
                              Transport_Failure)) 0
     = Json_Body (JDict [(''access_token'', JStr ''a2'')]) \<and>
   fst (refresh_access_token
          (expired_client (script [Json_Body (JDict [(''access_token'', JStr ''a2'')])]
                             Transport_Failure)))
     = Inr True \<and>
   refresh_token (snd (refresh_access_token
          (expired_client (script [Json_Body (JDict [(''access_token'', JStr ''a2'')])]
                             Transport_Failure))))
     = JNull \<and>
   access_token (snd (refresh_access_token
          (expired_client (script [Json_Body (JDict [(''access_token'', JStr ''a2'')])]
                             Transport_Failure))))
     = JStr ''a2'' \<and>
   fst (maybe_refresh_token (snd (refresh_access_token
          (expired_client (script [Json_Body (JDict [(''access_token'', JStr ''a2'')])]
                             Transport_Failure)))))
     = Inr True"
proof -
  let ?d = "[(''access_token'', JStr ''a2'')]"
  let ?s = "expired_client (script [Json_Body (JDict ?d)] Transport_Failure)"
  let ?s' = "snd (refresh_access_token ?s)"
  have t: "truthy (refresh_token ?s)" by (simp add: example_defs)
  have r: "replies ?s (length (sent ?s)) = Json_Body (JDict ?d)" by (simp add: example_defs)
  have e: "\<not> has_key ?d ''error''" by (simp add: has_key_def)
  have x: "expires_in ?d = Some 3600" by (simp add: expires_in_absent)
  have f: "float_of_int 3600 = Inr (Fin 3600)" by (simp add: float_of_int_small)
  note ra = refresh_accepts[OF t r e x f]
  have at: "access_token ?s' = JStr ''a2''" by (simp add: ra(2) dict_get_def)
  have rt: "refresh_token ?s' = JNull" by (simp add: ra(3) dict_get_def)
  have ex: "token_expires_at ?s' = Fin 3670"
    unfolding ra(4) by (simp add: example_defs float_sub_def binary64_numeral)
  have now: "clock ?s' (ticks ?s') = Fin 100" unfolding ra(7) by (simp add: example_defs)
  have "maybe_refresh_token ?s' = (Inr True, ?s'\<lparr>ticks := Suc (ticks ?s')\<rparr>)"
    by (rule maybe_refresh_valid) (simp_all add: at ex now)
  then show ?thesis using ra(1) at rt r by (simp add: example_defs)
qed

end
